theory Spec2Isabelle
  imports Complex_Main
begin

section \<open>Numeric model\<close>

text \<open>
  The scripts compute with numpy \<^verbatim>\<open>float64\<close> values. Where the special values matter,
  in the conversion to Euler angles, a float is a real number or one of the IEEE values
  \<open>+inf\<close>, \<open>-inf\<close> and NaN. On finite values the operations are the exact operations
  of the reals: rounding, the overflow of a finite result and the sign of zero are
  outside the model. Elsewhere (translations, reprojection error, pixel coordinates) the
  numbers are reals. The comparisons of the source are against constants that are read
  as the decimal numbers written in the source.
\<close>

type_synonym vec3 = "real \<times> real \<times> real"

type_synonym point2 = "real \<times> real"

datatype fl = Fin real | PInf | NInf | NaN

text \<open>\<^verbatim>\<open>np.isnan\<close> and \<^verbatim>\<open>np.isfinite\<close>.\<close>

fun isnan :: "fl \<Rightarrow> bool" where
  "isnan NaN = True"
| "isnan x = False"

fun isfinite :: "fl \<Rightarrow> bool" where
  "isfinite (Fin r) = True"
| "isfinite x = False"

text \<open>Unary minus, \<^verbatim>\<open>x ** 2\<close> and \<^verbatim>\<open>x + y\<close>.\<close>

fun fl_neg :: "fl \<Rightarrow> fl" where
  "fl_neg (Fin r) = Fin (- r)"
| "fl_neg PInf = NInf"
| "fl_neg NInf = PInf"
| "fl_neg NaN = NaN"

fun fl_square :: "fl \<Rightarrow> fl" where
  "fl_square (Fin r) = Fin (r\<^sup>2)"
| "fl_square PInf = PInf"
| "fl_square NInf = PInf"
| "fl_square NaN = NaN"

fun fl_add :: "fl \<Rightarrow> fl \<Rightarrow> fl" where
  "fl_add (Fin a) (Fin b) = Fin (a + b)"
| "fl_add NaN y = NaN"
| "fl_add x NaN = NaN"
| "fl_add PInf NInf = NaN"
| "fl_add NInf PInf = NaN"
| "fl_add PInf y = PInf"
| "fl_add x PInf = PInf"
| "fl_add NInf y = NInf"
| "fl_add x NInf = NInf"

text \<open>\<^verbatim>\<open>np.sqrt\<close>: NaN for a negative argument.\<close>

fun np_sqrt :: "fl \<Rightarrow> fl" where
  "np_sqrt (Fin r) = (if r < 0 then NaN else Fin (sqrt r))"
| "np_sqrt PInf = PInf"
| "np_sqrt NInf = NaN"
| "np_sqrt NaN = NaN"

text \<open>The comparisons \<^verbatim>\<open>x < y\<close> and \<^verbatim>\<open>x <= y\<close>: false when an argument is NaN.\<close>

fun fl_less :: "fl \<Rightarrow> fl \<Rightarrow> bool" where
  "fl_less (Fin a) (Fin b) = (a < b)"
| "fl_less NaN y = False"
| "fl_less x NaN = False"
| "fl_less x NInf = False"
| "fl_less NInf y = True"
| "fl_less PInf y = False"
| "fl_less x PInf = True"

fun fl_le :: "fl \<Rightarrow> fl \<Rightarrow> bool" where
  "fl_le (Fin a) (Fin b) = (a \<le> b)"
| "fl_le NaN y = False"
| "fl_le x NaN = False"
| "fl_le NInf y = True"
| "fl_le x PInf = True"
| "fl_le x NInf = False"
| "fl_le PInf y = False"

text \<open>
  The angle of the point \<open>(x, y)\<close> in \<open>(-pi, pi]\<close>, and 0 at the origin: the value of
  \<^verbatim>\<open>np.arctan2(y, x)\<close> on finite arguments.
\<close>

definition arctan2 :: "real \<Rightarrow> real \<Rightarrow> real" where
  "arctan2 y x =
     (if 0 < x then arctan (y / x)
      else if x < 0 then (if 0 \<le> y then arctan (y / x) + pi else arctan (y / x) - pi)
      else if 0 < y then pi / 2
      else if y < 0 then - (pi / 2)
      else 0)"

text \<open>
  \<^verbatim>\<open>np.arctan2(y, x)\<close>: NaN when an argument is NaN, and the limit angles for
  infinite arguments.
\<close>

fun np_arctan2 :: "fl \<Rightarrow> fl \<Rightarrow> fl" where
  "np_arctan2 (Fin y) (Fin x) = Fin (arctan2 y x)"
| "np_arctan2 NaN x = NaN"
| "np_arctan2 y NaN = NaN"
| "np_arctan2 (Fin y) PInf = Fin 0"
| "np_arctan2 (Fin y) NInf = (if 0 \<le> y then Fin pi else Fin (- pi))"
| "np_arctan2 PInf (Fin x) = Fin (pi / 2)"
| "np_arctan2 NInf (Fin x) = Fin (- (pi / 2))"
| "np_arctan2 PInf PInf = Fin (pi / 4)"
| "np_arctan2 PInf NInf = Fin (3 * pi / 4)"
| "np_arctan2 NInf PInf = Fin (- (pi / 4))"
| "np_arctan2 NInf NInf = Fin (- (3 * pi / 4))"

text \<open>\<^verbatim>\<open>np.degrees\<close>, applied to one component.\<close>

definition degrees :: "real \<Rightarrow> real" where
  "degrees a = a * 180 / pi"

fun np_degrees :: "fl \<Rightarrow> fl" where
  "np_degrees (Fin a) = Fin (degrees a)"
| "np_degrees x = x"

text \<open>A 3x3 array; the selector \<open>Rij\<close> is the source's \<^verbatim>\<open>R[i, j]\<close>.\<close>

datatype 'a mat3 = Mat3
  (R00: 'a) (R01: 'a) (R02: 'a)
  (R10: 'a) (R11: 'a) (R12: 'a)
  (R20: 'a) (R21: 'a) (R22: 'a)

section \<open>aruco\_pose.py: rotation vector to Euler angles\<close>

text \<open>
  \<^verbatim>\<open>rotation_vector_to_euler(rvec)\<close>. The call \<^verbatim>\<open>cv2.Rodrigues(rvec)\<close> is a call
  into OpenCV; the function that maps the rotation vector to the matrix is the
  parameter \<open>rodrigues\<close>, and the matrix it returns is an array of floats. The result is
  the array \<^verbatim>\<open>[roll, pitch, yaw]\<close> in degrees.
\<close>

definition rotation_vector_to_euler :: "(vec3 \<Rightarrow> fl mat3) \<Rightarrow> vec3 \<Rightarrow> fl \<times> fl \<times> fl" where
  "rotation_vector_to_euler rodrigues rvec =
     (let R = rodrigues rvec;
          sy = np_sqrt (fl_add (fl_square (R00 R)) (fl_square (R10 R)));
          singular = fl_less sy (Fin (1 / 10 ^ 6))
      in if \<not> singular
         then (let roll = np_arctan2 (R21 R) (R22 R);
                   pitch = np_arctan2 (fl_neg (R20 R)) sy;
                   yaw = np_arctan2 (R10 R) (R00 R)
               in (np_degrees roll, np_degrees pitch, np_degrees yaw))
         else (let roll = np_arctan2 (fl_neg (R12 R)) (R11 R);
                   pitch = np_arctan2 (fl_neg (R20 R)) sy;
                   yaw = Fin 0
               in (np_degrees roll, np_degrees pitch, np_degrees yaw)))"

text \<open>No entry of the matrix is NaN.\<close>

definition no_nan :: "fl mat3 \<Rightarrow> bool" where
  "no_nan R =
     (\<not> isnan (R00 R) \<and> \<not> isnan (R01 R) \<and> \<not> isnan (R02 R) \<and>
      \<not> isnan (R10 R) \<and> \<not> isnan (R11 R) \<and> \<not> isnan (R12 R) \<and>
      \<not> isnan (R20 R) \<and> \<not> isnan (R21 R) \<and> \<not> isnan (R22 R))"

text \<open>
  Three matrices: the identity, the rotation by +90 degrees about the y axis (gimbal
  lock), and the matrix of NaN entries that \<^verbatim>\<open>cv2.Rodrigues\<close> returns when the
  computation of the angle overflows.
\<close>

definition identity_matrix :: "fl mat3" where
  "identity_matrix = Mat3 (Fin 1) (Fin 0) (Fin 0)  (Fin 0) (Fin 1) (Fin 0)  (Fin 0) (Fin 0) (Fin 1)"

definition gimbal_matrix :: "fl mat3" where
  "gimbal_matrix = Mat3 (Fin 0) (Fin 0) (Fin 1)  (Fin 0) (Fin 1) (Fin 0)  (Fin (- 1)) (Fin 0) (Fin 0)"

definition nan_matrix :: "fl mat3" where
  "nan_matrix = Mat3 NaN NaN NaN  NaN NaN NaN  NaN NaN NaN"

section \<open>aruco\_pose.py: the pose pipeline\<close>

text \<open>
  How a run of a script ends: \<^verbatim>\<open>exit(n)\<close> after a printed diagnostic, an exception that
  nothing catches (the interpreter prints the traceback and the status is 1), or the end
  of the script (status 0).
\<close>

datatype py_exn = KeyError string | TypeError | YAMLError | ValueError | AttributeError | Cv2Error

datatype diagnostic =
    CalibrationFileNotFound | WebcamNotOpened
  | ImageDirNotFound | NoImagesFound | InsufficientSamples nat | CalibrationFailed

datatype ending = Exit nat diagnostic | Uncaught py_exn | Done

fun exit_status :: "ending \<Rightarrow> nat" where
  "exit_status (Exit n d) = n"
| "exit_status (Uncaught e) = 1"
| "exit_status Done = 0"

text \<open>
  What \<^verbatim>\<open>yaml.safe_load\<close> returns: a document of scalars, sequences and mappings. A
  mapping is the loaded \<^verbatim>\<open>dict\<close>, as the list of its items.
\<close>

datatype yaml = YNull | YNum real | YStr string | YSeq "yaml list" | YMap "(string \<times> yaml) list"

text \<open>
  \<^verbatim>\<open>calib_data[key]\<close> with a string key: the value of a mapping that has the key,
  \<^verbatim>\<open>KeyError\<close> for a mapping without it, \<^verbatim>\<open>TypeError\<close> for every other document
  (\<^verbatim>\<open>None\<close> and numbers are not subscriptable, lists and strings take integer indices).
\<close>

fun subscript :: "yaml \<Rightarrow> string \<Rightarrow> py_exn + yaml" where
  "subscript (YMap items) k = (case map_of items k of None \<Rightarrow> Inl (KeyError k) | Some v \<Rightarrow> Inr v)"
| "subscript d k = Inl TypeError"

text \<open>
  The library calls of the pipeline are parameters, collected in one record:
  \<^verbatim>\<open>np.array\<close> on a loaded value, \<^verbatim>\<open>cv2.Rodrigues\<close>, \<^verbatim>\<open>detector.detectMarkers\<close>
  (\<open>None\<close> when \<^verbatim>\<open>ids is None\<close>) and \<^verbatim>\<open>cv2.solvePnP\<close>, which returns
  \<^verbatim>\<open>(success, rvec, tvec)\<close> or raises \<^verbatim>\<open>cv2.error\<close>.
\<close>

record marker =
  corner_points :: "point2 list"
  marker_id :: int

record ('img, 'arr) pose_cv =
  np_array :: "yaml \<Rightarrow> py_exn + 'arr"
  Rodrigues :: "vec3 \<Rightarrow> fl mat3"
  detectMarkers :: "'img \<Rightarrow> marker list option"
  solvePnP :: "vec3 list \<Rightarrow> point2 list \<Rightarrow> 'arr \<Rightarrow> 'arr \<Rightarrow> py_exn + (bool \<times> vec3 \<times> vec3)"

text \<open>
  Loading the calibration. The argument \<open>file\<close> is \<open>None\<close> when
  \<^verbatim>\<open>os.path.exists(CALIBRATION_FILE)\<close> is false and otherwise what
  \<^verbatim>\<open>yaml.safe_load\<close> does on the file: the loaded document or the exception raised.
\<close>

definition load_calibration ::
  "('img, 'arr) pose_cv \<Rightarrow> (py_exn + yaml) option \<Rightarrow> ending + ('arr \<times> 'arr)" where
  "load_calibration cv file =
     (case file of
        None \<Rightarrow> Inl (Exit 1 CalibrationFileNotFound)
      | Some (Inl e) \<Rightarrow> Inl (Uncaught e)
      | Some (Inr calib_data) \<Rightarrow>
          (case subscript calib_data ''camera_matrix'' of
             Inl e \<Rightarrow> Inl (Uncaught e)
           | Inr cm \<Rightarrow>
          (case np_array cv cm of
             Inl e \<Rightarrow> Inl (Uncaught e)
           | Inr camera_matrix \<Rightarrow>
          (case subscript calib_data ''dist_coeff'' of
             Inl e \<Rightarrow> Inl (Uncaught e)
           | Inr dc \<Rightarrow>
          (case np_array cv dc of
             Inl e \<Rightarrow> Inl (Uncaught e)
           | Inr dist_coeffs \<Rightarrow> Inr (camera_matrix, dist_coeffs))))))"

definition MARKER_SIZE :: real where
  "MARKER_SIZE = 94 / 1000"

definition marker_points :: "vec3 list" where
  "marker_points =
     (let half_size = MARKER_SIZE / 2
      in [(- half_size, half_size, 0),
          (half_size, half_size, 0),
          (half_size, - half_size, 0),
          (- half_size, - half_size, 0)])"

text \<open>The pose of one marker: the values the loop body computes when \<^verbatim>\<open>success\<close> holds.\<close>

record marker_pose =
  pose_id :: int
  pose_tvec :: vec3
  pose_rvec :: vec3
  pose_euler :: "fl \<times> fl \<times> fl"
  pose_distance :: real

text \<open>\<^verbatim>\<open>np.linalg.norm(tvec)\<close>.\<close>

definition norm3 :: "vec3 \<Rightarrow> real" where
  "norm3 v = (case v of (x, y, z) \<Rightarrow> sqrt (x\<^sup>2 + y\<^sup>2 + z\<^sup>2))"

definition compute_pose ::
  "('img, 'arr) pose_cv \<Rightarrow> 'arr \<Rightarrow> 'arr \<Rightarrow> marker \<Rightarrow> py_exn + marker_pose option" where
  "compute_pose cv camera_matrix dist_coeffs m =
     (case solvePnP cv marker_points (corner_points m) camera_matrix dist_coeffs of
        Inl e \<Rightarrow> Inl e
      | Inr (success, rvec, tvec) \<Rightarrow>
          if success
          then Inr (Some \<lparr> pose_id = marker_id m, pose_tvec = tvec, pose_rvec = rvec,
                           pose_euler = rotation_vector_to_euler (Rodrigues cv) rvec,
                           pose_distance = norm3 tvec \<rparr>)
          else Inr None)"

text \<open>
  The state of the main loop: the flag \<^verbatim>\<open>print_detailed\<close>, the detailed poses printed
  to the terminal so far, and the number of frames read and processed. The drawing calls
  write into the display copy only and are left out.
\<close>

record loop_state =
  print_detailed :: bool
  printed :: "marker_pose list"
  frames_done :: nat

text \<open>
  The \<^verbatim>\<open>for\<close> loop over the detected markers. An exception of \<^verbatim>\<open>cv2.solvePnP\<close> ends
  the loop (and the run) with the state reached so far.
\<close>

fun marker_loop ::
  "('img, 'arr) pose_cv \<Rightarrow> 'arr \<Rightarrow> 'arr \<Rightarrow> marker list \<Rightarrow> loop_state \<Rightarrow> py_exn option \<times> loop_state" where
  "marker_loop cv K D [] s = (None, s)"
| "marker_loop cv K D (m # ms) s =
     (case compute_pose cv K D m of
        Inl e \<Rightarrow> (Some e, s)
      | Inr None \<Rightarrow> marker_loop cv K D ms s
      | Inr (Some p) \<Rightarrow>
          if print_detailed s
          then marker_loop cv K D ms (s\<lparr> printed := printed s @ [p], print_detailed := False \<rparr>)
          else marker_loop cv K D ms s)"

text \<open>The part of one iteration before the keyboard is read.\<close>

definition process_frame ::
  "('img, 'arr) pose_cv \<Rightarrow> 'arr \<Rightarrow> 'arr \<Rightarrow> 'img \<Rightarrow> loop_state \<Rightarrow> py_exn option \<times> loop_state" where
  "process_frame cv K D frame s =
     (case detectMarkers cv frame of
        None \<Rightarrow> (None, s)
      | Some ms \<Rightarrow> if length ms > 0 then marker_loop cv K D ms s else (None, s))"

text \<open>
  The main loop. Its input is the list of the frames that \<^verbatim>\<open>cap.read()\<close> delivers,
  each with the value \<^verbatim>\<open>cv2.waitKey(1)\<close> returns in that iteration; after the last
  frame \<^verbatim>\<open>ret\<close> is false and the loop ends. The key is \<^verbatim>\<open>waitKey(1) & 0xFF\<close>:
  27 and \<^verbatim>\<open>ord('q')\<close> = 113 leave the loop, \<^verbatim>\<open>ord('p')\<close> = 112 sets the flag.
\<close>

fun main_loop ::
  "('img, 'arr) pose_cv \<Rightarrow> 'arr \<Rightarrow> 'arr \<Rightarrow> ('img \<times> int) list \<Rightarrow> loop_state \<Rightarrow> py_exn option \<times> loop_state" where
  "main_loop cv K D [] s = (None, s)"
| "main_loop cv K D ((frame, wk) # rest) s =
     (case process_frame cv K D frame (s\<lparr> frames_done := Suc (frames_done s) \<rparr>) of
        (Some e, s') \<Rightarrow> (Some e, s')
      | (None, s') \<Rightarrow>
          (let key = and wk 255
           in if key = 27 \<or> key = 113 then (None, s')
              else if key = 112 then main_loop cv K D rest (s'\<lparr> print_detailed := True \<rparr>)
              else main_loop cv K D rest s'))"

definition initial_state :: loop_state where
  "initial_state = \<lparr> print_detailed = False, printed = [], frames_done = 0 \<rparr>"

text \<open>
  The script: load the calibration, open the webcam (\<open>opened\<close> is
  \<^verbatim>\<open>cap.isOpened()\<close>), run the main loop.
\<close>

definition aruco_pose ::
  "('img, 'arr) pose_cv \<Rightarrow> (py_exn + yaml) option \<Rightarrow> bool \<Rightarrow> ('img \<times> int) list \<Rightarrow> ending \<times> loop_state" where
  "aruco_pose cv file opened inputs =
     (case load_calibration cv file of
        Inl stop \<Rightarrow> (stop, initial_state)
      | Inr (camera_matrix, dist_coeffs) \<Rightarrow>
          if \<not> opened then (Exit 1 WebcamNotOpened, initial_state)
          else (case main_loop cv camera_matrix dist_coeffs inputs initial_state of
                  (Some e, s) \<Rightarrow> (Uncaught e, s)
                | (None, s) \<Rightarrow> (Done, s)))"

text \<open>
  A concrete instance of the library calls, for evaluating the pipeline: a frame is the
  detection it yields, \<^verbatim>\<open>np.array\<close> raises for the ragged sequence
  \<^verbatim>\<open>[[1, 2], [3]]\<close> and accepts every other loaded value, and the solver reports success for an observation of four
  distinct corners, with a translation of depth \<open>-1\<close>, and no success when corners
  coincide.
\<close>

definition sample_cv :: "(marker list option, yaml) pose_cv" where
  "sample_cv =
     \<lparr> np_array = (\<lambda>v. if v = YSeq [YSeq [YNum 1, YNum 2], YSeq [YNum 3]] then Inl ValueError else Inr v),
       Rodrigues = (\<lambda>r. identity_matrix),
       detectMarkers = (\<lambda>frame. frame),
       solvePnP = (\<lambda>obj pts K D. Inr (length pts = 4 \<and> distinct pts, (0, 0, 0), (0, 0, - 1))) \<rparr>"

definition square_marker :: "int \<Rightarrow> marker" where
  "square_marker i = \<lparr> corner_points = [(0, 0), (1, 0), (1, 1), (0, 1)], marker_id = i \<rparr>"

definition degenerate_marker :: "int \<Rightarrow> marker" where
  "degenerate_marker i = \<lparr> corner_points = [(0, 0), (0, 0), (0, 0), (0, 0)], marker_id = i \<rparr>"

definition sample_pose :: "int \<Rightarrow> marker_pose" where
  "sample_pose i =
     \<lparr> pose_id = i, pose_tvec = (0, 0, - 1), pose_rvec = (0, 0, 0),
       pose_euler = (Fin 0, Fin 0, Fin 0), pose_distance = 1 \<rparr>"

text \<open>
  No pose succeeds in a frame: no marker is detected, or the solver reports no success
  for every detected marker. A key that leaves the main loop.
\<close>

definition no_pose :: "('img, 'arr) pose_cv \<Rightarrow> 'arr \<Rightarrow> 'arr \<Rightarrow> 'img \<Rightarrow> bool" where
  "no_pose cv K D frame =
     (case detectMarkers cv frame of
        None \<Rightarrow> True
      | Some ms \<Rightarrow> \<forall>m \<in> set ms. compute_pose cv K D m = Inr None)"

definition quit_key :: "int \<Rightarrow> bool" where
  "quit_key wk = (and wk 255 = 27 \<or> and wk 255 = 113)"

text \<open>The number of print requests that are pending in a state: one when the flag is set.\<close>

definition pending :: "loop_state \<Rightarrow> nat" where
  "pending s = (if print_detailed s then 1 else 0)"

section \<open>calibrate.py\<close>

definition CHESSBOARD_SIZE :: "nat \<times> nat" where
  "CHESSBOARD_SIZE = (9, 7)"

definition SQUARE_SIZE :: real where
  "SQUARE_SIZE = 165 / 10"

text \<open>
  The object points: \<^verbatim>\<open>np.mgrid[0:9, 0:7].T.reshape(-1, 2)\<close> lists the grid row by row
  (the first index runs fastest), the third coordinate is 0, and all is scaled by the
  square size.
\<close>

definition objp :: "vec3 list" where
  "objp = concat (map (\<lambda>j. map (\<lambda>i. (real i * SQUARE_SIZE, real j * SQUARE_SIZE, 0))
                                [0..<fst CHESSBOARD_SIZE])
                      [0..<snd CHESSBOARD_SIZE])"

text \<open>The termination criteria \<^verbatim>\<open>(type, maxCount, epsilon)\<close> of OpenCV.\<close>

record term_criteria =
  crit_type :: nat
  max_count :: nat
  epsilon :: real

definition TERM_CRITERIA_MAX_ITER :: nat where
  "TERM_CRITERIA_MAX_ITER = 1"

definition TERM_CRITERIA_EPS :: nat where
  "TERM_CRITERIA_EPS = 2"

text \<open>The criteria that the script passes to \<^verbatim>\<open>cv2.cornerSubPix\<close>.\<close>

definition subpix_criteria :: term_criteria where
  "subpix_criteria =
     \<lparr> crit_type = TERM_CRITERIA_EPS + TERM_CRITERIA_MAX_ITER, max_count = 30, epsilon = 1 / 1000 \<rparr>"

text \<open>The positional change between two estimates of a corner, in pixels.\<close>

definition change :: "point2 \<Rightarrow> point2 \<Rightarrow> real" where
  "change c c' = sqrt ((fst c' - fst c)\<^sup>2 + (snd c' - snd c)\<^sup>2)"

text \<open>
  Modelled from the spec: the iteration inside \<^verbatim>\<open>cv2.cornerSubPix\<close>, which is OpenCV
  code and not part of the repository. The spec says that a corner position is refined
  by iterative local optimisation around the initial estimate, terminating after
  \<open>maxCount\<close> iterations or when the positional change is below \<open>epsilon\<close>, whichever
  is first. One step of the local optimisation is the parameter \<open>step\<close>; the first
  argument of the recursion is the number of iterations still allowed. The result is the
  refined corner and the number of iterations made.
\<close>

fun refine_corner :: "(point2 \<Rightarrow> point2) \<Rightarrow> nat \<Rightarrow> real \<Rightarrow> point2 \<Rightarrow> point2 \<times> nat" where
  "refine_corner step 0 eps c = (c, 0)"
| "refine_corner step (Suc k) eps c =
     (let c' = step c
      in if change c c' < eps then (c', 1)
         else (case refine_corner step k eps c' of (q, n) \<Rightarrow> (q, Suc n)))"

definition cornerSubPix ::
  "('gray \<Rightarrow> nat \<times> nat \<Rightarrow> int \<times> int \<Rightarrow> point2 \<Rightarrow> point2) \<Rightarrow>
   'gray \<Rightarrow> point2 list \<Rightarrow> nat \<times> nat \<Rightarrow> int \<times> int \<Rightarrow> term_criteria \<Rightarrow> point2 list" where
  "cornerSubPix step gray corners winSize zeroZone criteria =
     map (\<lambda>c. fst (refine_corner (step gray winSize zeroZone) (max_count criteria) (epsilon criteria) c))
         corners"

text \<open>The five distortion coefficients, the row \<^verbatim>\<open>dist[0, :]\<close>.\<close>

datatype dist5 = Dist5 (k1: real) (k2: real) (p1: real) (p2: real) (k3: real)

text \<open>
  The OpenCV calls of \<^verbatim>\<open>calibrate.py\<close> and \<^verbatim>\<open>capture.py\<close> as parameters.
  \<^verbatim>\<open>cv2.imread\<close> returns \<open>None\<close> for a file it cannot read. \<open>subpix_step\<close> is one
  step of the corner refinement. \<^verbatim>\<open>cv2.calibrateCamera\<close> returns the RMS reprojection
  error, the camera matrix and the distortion coefficients, or raises. The two drawing
  calls give the new contents of the array they draw into.
\<close>

record ('img, 'gray) chessboard_cv =
  imread :: "string \<Rightarrow> 'img option"
  cvtColor :: "'img \<Rightarrow> 'gray"
  shape :: "'gray \<Rightarrow> nat \<times> nat"
  findChessboardCorners :: "'gray \<Rightarrow> nat \<times> nat \<Rightarrow> bool \<times> point2 list"
  subpix_step :: "'gray \<Rightarrow> nat \<times> nat \<Rightarrow> int \<times> int \<Rightarrow> point2 \<Rightarrow> point2"
  calibrateCamera :: "vec3 list list \<Rightarrow> point2 list list \<Rightarrow> nat \<times> nat \<Rightarrow> py_exn + (real \<times> real mat3 \<times> dist5)"
  drawChessboardCorners :: "'img \<Rightarrow> nat \<times> nat \<Rightarrow> point2 list \<Rightarrow> bool \<Rightarrow> 'img"
  putText :: "'img \<Rightarrow> string \<Rightarrow> 'img"

text \<open>The variables of the loop over the image files.\<close>

record 'gray collect_state =
  objpoints :: "vec3 list list"
  imgpoints :: "point2 list list"
  successful :: nat
  failed :: nat
  gray :: "'gray option"

definition collect_init :: "'gray collect_state" where
  "collect_init = \<lparr> objpoints = [], imgpoints = [], successful = 0, failed = 0, gray = None \<rparr>"

fun image_loop :: "('img, 'gray) chessboard_cv \<Rightarrow> string list \<Rightarrow> 'gray collect_state \<Rightarrow> 'gray collect_state" where
  "image_loop cv [] s = s"
| "image_loop cv (fname # rest) s =
     (case imread cv fname of
        None \<Rightarrow> image_loop cv rest (s\<lparr> failed := failed s + 1 \<rparr>)
      | Some img \<Rightarrow>
          (let g = cvtColor cv img;
               (found, corners) = findChessboardCorners cv g CHESSBOARD_SIZE
           in if found
              then image_loop cv rest
                     (s\<lparr> objpoints := objpoints s @ [objp],
                        imgpoints := imgpoints s @
                          [cornerSubPix (subpix_step cv) g corners (11, 11) (- 1, - 1) subpix_criteria],
                        successful := successful s + 1,
                        gray := Some g \<rparr>)
              else image_loop cv rest (s\<lparr> failed := failed s + 1, gray := Some g \<rparr>)))"

text \<open>An image file counts as a successful sample when it is read and the chessboard is found.\<close>

definition sample_ok :: "('img, 'gray) chessboard_cv \<Rightarrow> string \<Rightarrow> bool" where
  "sample_ok cv fname =
     (case imread cv fname of
        None \<Rightarrow> False
      | Some img \<Rightarrow> fst (findChessboardCorners cv (cvtColor cv img) CHESSBOARD_SIZE))"

datatype quality = Excellent | Good | Acceptable | Poor

text \<open>The quality line printed after the reprojection error.\<close>

definition calibration_quality :: "real \<Rightarrow> quality" where
  "calibration_quality ret =
     (if ret < 5 / 10 then Excellent
      else if ret < 1 then Good
      else if ret < 2 then Acceptable
      else Poor)"

text \<open>The dictionary dumped to \<^verbatim>\<open>calibration.yaml\<close>.\<close>

record calib_data =
  yaml_camera_matrix :: "real mat3"
  yaml_dist_coeff :: dist5
  yaml_reprojection_error :: real

text \<open>
  What a run of the script leaves: how it ended, the quality line it printed and the
  contents it wrote to the output file, if any.
\<close>

record calib_result =
  calib_ending :: ending
  quality_report :: "quality option"
  saved_file :: "calib_data option"

definition stopped :: "ending \<Rightarrow> calib_result" where
  "stopped e = \<lparr> calib_ending = e, quality_report = None, saved_file = None \<rparr>"

text \<open>
  The script. \<open>dir_exists\<close> is \<^verbatim>\<open>os.path.exists(IMAGE_DIR)\<close> and \<open>images\<close> the
  result of \<^verbatim>\<open>glob.glob\<close>. Only \<^verbatim>\<open>cv2.error\<close> is caught around the solve.
\<close>

definition calibrate :: "('img, 'gray) chessboard_cv \<Rightarrow> bool \<Rightarrow> string list \<Rightarrow> calib_result" where
  "calibrate cv dir_exists images =
     (if \<not> dir_exists then stopped (Exit 1 ImageDirNotFound)
      else if length images = 0 then stopped (Exit 1 NoImagesFound)
      else
        (let s = image_loop cv images collect_init
         in if successful s < 3 then stopped (Exit 1 (InsufficientSamples (successful s)))
            else
              (case gray s of
                 None \<Rightarrow> stopped (Uncaught AttributeError)
               | Some g \<Rightarrow>
                   (case calibrateCamera cv (objpoints s) (imgpoints s) (prod.swap (shape cv g)) of
                      Inl e \<Rightarrow>
                        if e = Cv2Error then stopped (Exit 1 CalibrationFailed)
                        else stopped (Uncaught e)
                    | Inr (ret, mtx, dcoef) \<Rightarrow>
                        \<lparr> calib_ending = Done,
                          quality_report = Some (calibration_quality ret),
                          saved_file = Some \<lparr> yaml_camera_matrix = mtx, yaml_dist_coeff = dcoef,
                                              yaml_reprojection_error = ret \<rparr> \<rparr>))))"

text \<open>A concrete instance: a file name is its own image, and the solve reports an error of 2.5.\<close>

definition sample_board :: "(string, string) chessboard_cv" where
  "sample_board =
     \<lparr> imread = (\<lambda>f. if f = ''unreadable.jpg'' then None else Some f),
       cvtColor = (\<lambda>img. img),
       shape = (\<lambda>g. (480, 640)),
       findChessboardCorners = (\<lambda>g size. (g \<noteq> ''blank.jpg'', [(1, 1)])),
       subpix_step = (\<lambda>g w z c. c),
       calibrateCamera = (\<lambda>obj img size. Inr (5 / 2, Mat3 800 0 320  0 800 240  0 0 1, Dist5 0 0 0 0 0)),
       drawChessboardCorners = (\<lambda>d size corners found. d @ ''+corners''),
       putText = (\<lambda>d text. d @ ''+text'') \<rparr>"

section \<open>capture.py\<close>

definition SAVE_DIR :: string where
  "SAVE_DIR = ''calib_images''"

definition NUM_IMAGES :: nat where
  "NUM_IMAGES = 10"

text \<open>
  The script holds two arrays per iteration, \<^verbatim>\<open>frame\<close> and \<^verbatim>\<open>display\<close>, and the
  drawing calls write into the array they are given. The arrays live in a store: a
  variable holds an address, and the store maps the addresses in use to the contents.
\<close>

type_synonym addr = nat

record 'img store =
  cells :: "addr \<Rightarrow> 'img option"
  next_addr :: addr

definition empty_store :: "'img store" where
  "empty_store = \<lparr> cells = (\<lambda>a. None), next_addr = 0 \<rparr>"

text \<open>A new array with the given contents (the frame that \<^verbatim>\<open>cap.read()\<close> returns).\<close>

definition new_array :: "'img store \<Rightarrow> 'img \<Rightarrow> addr \<times> 'img store" where
  "new_array st v =
     (next_addr st, st\<lparr> cells := (cells st)(next_addr st \<mapsto> v), next_addr := Suc (next_addr st) \<rparr>)"

text \<open>\<^verbatim>\<open>a.copy()\<close>: a new array with the contents of the array at \<open>a\<close>.\<close>

definition array_copy :: "'img store \<Rightarrow> addr \<Rightarrow> addr \<times> 'img store" where
  "array_copy st a =
     (next_addr st, st\<lparr> cells := (cells st)(next_addr st := cells st a), next_addr := Suc (next_addr st) \<rparr>)"

text \<open>A drawing call on the array at \<open>a\<close>: its contents are replaced in place.\<close>

definition draw_into :: "'img store \<Rightarrow> addr \<Rightarrow> ('img \<Rightarrow> 'img) \<Rightarrow> 'img store" where
  "draw_into st a f = st\<lparr> cells := (cells st)(a := map_option f (cells st a)) \<rparr>"

text \<open>The file name \<^verbatim>\<open>os.path.join(SAVE_DIR, f"img_{count:02d}.jpg")\<close>.\<close>

definition digit_char :: "nat \<Rightarrow> char" where
  "digit_char d = char_of (48 + d)"

fun decimal :: "nat \<Rightarrow> string" where
  "decimal n = (if n < 10 then [digit_char n] else decimal (n div 10) @ [digit_char (n mod 10)])"

declare decimal.simps [simp del]

definition filename :: "nat \<Rightarrow> string" where
  "filename n = SAVE_DIR @ ''/'' @ ''img_'' @ (if n < 10 then ''0'' @ decimal n else decimal n) @ ''.jpg''"

text \<open>
  The state of the capture loop: the store, the counter, the files written by
  \<^verbatim>\<open>cv2.imwrite\<close> (name and contents, in the order of writing) and the images shown
  by \<^verbatim>\<open>cv2.imshow\<close>.
\<close>

record 'img capture_state =
  heap :: "'img store"
  count :: nat
  files :: "(string \<times> 'img) list"
  shown :: "'img list"

definition capture_init :: "'img capture_state" where
  "capture_init = \<lparr> heap = empty_store, count = 0, files = [], shown = [] \<rparr>"

text \<open>
  One iteration for a frame that was read, with the value of \<^verbatim>\<open>cv2.waitKey(1)\<close>. The
  result is the new state and whether the loop is left; it is \<open>None\<close> if an address
  without contents is read.
\<close>

definition capture_iteration ::
  "('img, 'gray) chessboard_cv \<Rightarrow> 'img \<Rightarrow> int \<Rightarrow> 'img capture_state \<Rightarrow> ('img capture_state \<times> bool) option" where
  "capture_iteration cv pixels key s =
     (let (frame, h1) = new_array (heap s) pixels;
          (display, h2) = array_copy h1 frame
      in case cells h2 frame of
           None \<Rightarrow> None
         | Some frame_img \<Rightarrow>
             (let g = cvtColor cv frame_img;
                  (found, corners) = findChessboardCorners cv g CHESSBOARD_SIZE;
                  h3 = (if found
                        then draw_into
                               (draw_into h2 display
                                  (\<lambda>d. drawChessboardCorners cv d CHESSBOARD_SIZE corners found))
                               display (\<lambda>d. putText cv d ''Press SPACE to save'')
                        else h2)
              in case cells h3 display of
                   None \<Rightarrow> None
                 | Some display_img \<Rightarrow>
                     (let s1 = s\<lparr> heap := h3, shown := shown s @ [display_img] \<rparr>
                      in if key = 32 \<and> found
                         then (case cells h3 frame of
                                 None \<Rightarrow> None
                               | Some written \<Rightarrow>
                                   (let s2 = s1\<lparr> files := files s1 @ [(filename (count s1), written)],
                                                 count := count s1 + 1 \<rparr>
                                    in Some (s2, count s2 \<ge> NUM_IMAGES)))
                         else if key = 27 then Some (s1, True)
                         else Some (s1, False))))"

text \<open>The loop over the frames read; after the last one \<^verbatim>\<open>ret\<close> is false.\<close>

fun capture_loop ::
  "('img, 'gray) chessboard_cv \<Rightarrow> ('img \<times> int) list \<Rightarrow> 'img capture_state \<Rightarrow> 'img capture_state option" where
  "capture_loop cv [] s = Some s"
| "capture_loop cv ((pixels, key) # rest) s =
     (case capture_iteration cv pixels key s of
        None \<Rightarrow> None
      | Some (s', stop) \<Rightarrow> if stop then Some s' else capture_loop cv rest s')"

definition capture ::
  "('img, 'gray) chessboard_cv \<Rightarrow> bool \<Rightarrow> ('img \<times> int) list \<Rightarrow> (ending \<times> 'img capture_state) option" where
  "capture cv opened inputs =
     (if \<not> opened then Some (Exit 1 WebcamNotOpened, capture_init)
      else map_option (\<lambda>s. (Done, s)) (capture_loop cv inputs capture_init))"

section \<open>Properties\<close>

lemma arctan2_nonneg_bounds:
  assumes "0 \<le> x"
  shows "- (pi / 2) \<le> arctan2 y x \<and> arctan2 y x \<le> pi / 2"
proof (cases "0 < x")
  case True
  have "- (pi / 2) < arctan (y / x)" "arctan (y / x) < pi / 2"
    by (rule arctan_lbound, rule arctan_ubound)
  with True show ?thesis by (simp add: arctan2_def)
next
  case False
  with assms have "x = 0" by simp
  then show ?thesis by (simp add: arctan2_def)
qed

lemma degrees_bounds:
  assumes "- (pi / 2) \<le> a" "a \<le> pi / 2"
  shows "- 90 \<le> degrees a \<and> degrees a \<le> 90"
proof -
  have p: "0 < pi" by simp
  have "a * 180 \<le> 90 * pi" using assms(2) by simp
  then have u: "a * 180 / pi \<le> 90" using p by (simp add: pos_divide_le_eq)
  have "- 90 * pi \<le> a * 180" using assms(1) by simp
  then have l: "- 90 \<le> a * 180 / pi" using p by (simp add: pos_le_divide_eq)
  from l u show ?thesis by (simp add: degrees_def)
qed

lemma isnan_neg: "isnan (fl_neg x) = isnan x"
  by (cases x) simp_all

lemma arctan2_finite: "\<not> isnan y \<Longrightarrow> \<not> isnan x \<Longrightarrow> isfinite (np_arctan2 y x)"
  by (cases y; cases x) simp_all

lemma degrees_finite: "isfinite a \<Longrightarrow> isfinite (np_degrees a)"
  by (cases a) simp_all

text \<open>The square root of the sum of two squares is a non-negative number or infinite.\<close>

lemma sy_cases:
  assumes "\<not> isnan a" "\<not> isnan b"
  shows "(\<exists>r. 0 \<le> r \<and> np_sqrt (fl_add (fl_square a) (fl_square b)) = Fin r) \<or>
         np_sqrt (fl_add (fl_square a) (fl_square b)) = PInf"
  using assms by (cases a; cases b) (simp_all add: not_less)

lemma quarter_turns:
  "- (pi / 2) \<le> pi / 4" "pi / 4 \<le> pi / 2" "- (pi / 2) \<le> - (pi / 4)" "- (pi / 4) \<le> pi / 2"
  "- (pi / 2) \<le> pi / 2" "- (pi / 2) \<le> 0" "0 \<le> pi / 2"
  using pi_gt_zero by linarith+

lemma arctan2_right_halfplane:
  assumes "\<not> isnan y" and "(\<exists>r. 0 \<le> r \<and> x = Fin r) \<or> x = PInf"
  shows "\<exists>a. np_arctan2 y x = Fin a \<and> - (pi / 2) \<le> a \<and> a \<le> pi / 2"
proof -
  from assms(2) show ?thesis
  proof
    assume "\<exists>r. 0 \<le> r \<and> x = Fin r"
    then obtain r where r: "0 \<le> r" "x = Fin r" by blast
    show ?thesis
    proof (cases y)
      case (Fin v)
      with r arctan2_nonneg_bounds [OF r(1), of v] show ?thesis by simp
    next
      case PInf
      show ?thesis unfolding PInf r(2)
        by (intro exI [of _ "pi / 2"] conjI) (simp_all only: np_arctan2.simps quarter_turns order_refl)
    next
      case NInf
      show ?thesis unfolding NInf r(2)
        by (intro exI [of _ "- (pi / 2)"] conjI) (simp_all only: np_arctan2.simps quarter_turns order_refl)
    next
      case NaN
      with assms(1) show ?thesis by simp
    qed
  next
    assume x: "x = PInf"
    show ?thesis
    proof (cases y)
      case (Fin v)
      show ?thesis unfolding Fin x
        by (intro exI [of _ 0] conjI) (simp_all only: np_arctan2.simps quarter_turns)
    next
      case PInf
      show ?thesis unfolding PInf x
        by (intro exI [of _ "pi / 4"] conjI) (simp_all only: np_arctan2.simps quarter_turns)
    next
      case NInf
      show ?thesis unfolding NInf x
        by (intro exI [of _ "- (pi / 4)"] conjI) (simp_all only: np_arctan2.simps quarter_turns)
    next
      case NaN
      with assms(1) show ?thesis by simp
    qed
  qed
qed

lemma fl_le_not_less: "fl_le (Fin e) s \<Longrightarrow> \<not> fl_less s (Fin e)"
  by (cases s) simp_all

text \<open>
  C1. For every matrix \<open>R\<close> that the Rodrigues mapping returns for a rotation vector,
  the Euler extraction computes \<open>sy = sqrt (R00\<^sup>2 + R10\<^sup>2)\<close>. When \<open>sy \<ge> 1e-6\<close> it
  returns roll = atan2(R21, R22), pitch = atan2(-R20, sy), yaw = atan2(R10, R00); when
  \<open>sy < 1e-6\<close> it returns roll = atan2(-R12, R11), pitch = atan2(-R20, sy) and yaw = 0
  exactly. All three angles are in degrees.
\<close>

theorem euler_extraction_formula:
  "(let R = rodrigues rvec;
        sy = np_sqrt (fl_add (fl_square (R00 R)) (fl_square (R10 R)))
    in (fl_le (Fin (1 / 10 ^ 6)) sy \<longrightarrow>
          rotation_vector_to_euler rodrigues rvec =
            (np_degrees (np_arctan2 (R21 R) (R22 R)),
             np_degrees (np_arctan2 (fl_neg (R20 R)) sy),
             np_degrees (np_arctan2 (R10 R) (R00 R)))) \<and>
       (fl_less sy (Fin (1 / 10 ^ 6)) \<longrightarrow>
          rotation_vector_to_euler rodrigues rvec =
            (np_degrees (np_arctan2 (fl_neg (R12 R)) (R11 R)),
             np_degrees (np_arctan2 (fl_neg (R20 R)) sy),
             Fin 0)))"
proof -
  define R where "R = rodrigues rvec"
  define sy where "sy = np_sqrt (fl_add (fl_square (R00 R)) (fl_square (R10 R)))"
  have a: "fl_le (Fin (1 / 10 ^ 6)) sy \<longrightarrow>
          rotation_vector_to_euler rodrigues rvec =
            (np_degrees (np_arctan2 (R21 R) (R22 R)),
             np_degrees (np_arctan2 (fl_neg (R20 R)) sy),
             np_degrees (np_arctan2 (R10 R) (R00 R)))"
  proof
    assume "fl_le (Fin (1 / 10 ^ 6)) sy"
    then have "\<not> fl_less sy (Fin (1 / 10 ^ 6))" by (rule fl_le_not_less)
    then show "rotation_vector_to_euler rodrigues rvec =
            (np_degrees (np_arctan2 (R21 R) (R22 R)),
             np_degrees (np_arctan2 (fl_neg (R20 R)) sy),
             np_degrees (np_arctan2 (R10 R) (R00 R)))"
      by (simp add: rotation_vector_to_euler_def Let_def R_def sy_def)
  qed
  have b: "fl_less sy (Fin (1 / 10 ^ 6)) \<longrightarrow>
          rotation_vector_to_euler rodrigues rvec =
            (np_degrees (np_arctan2 (fl_neg (R12 R)) (R11 R)),
             np_degrees (np_arctan2 (fl_neg (R20 R)) sy),
             Fin 0)"
    by (simp add: rotation_vector_to_euler_def Let_def R_def sy_def degrees_def)
  from a b show ?thesis by (simp add: Let_def R_def sy_def)
qed

text \<open>
  The two branches at concrete matrices: the identity (non-singular, all angles 0) and
  the rotation by +90 degrees about the y axis (gimbal lock: pitch 90, yaw 0 exactly).
\<close>

theorem euler_extraction_formula_witness:
  "rotation_vector_to_euler (\<lambda>r. identity_matrix) (0, 0, 0) = (Fin 0, Fin 0, Fin 0) \<and>
   rotation_vector_to_euler (\<lambda>r. gimbal_matrix) (0, pi / 2, 0) = (Fin 0, Fin 90, Fin 0)"
proof -
  have a: "rotation_vector_to_euler (\<lambda>r. identity_matrix) (0, 0, 0) = (Fin 0, Fin 0, Fin 0)"
    using euler_extraction_formula [of "\<lambda>r. identity_matrix" "(0, 0, 0)"]
    by (simp add: identity_matrix_def arctan2_def degrees_def Let_def)
  have b: "rotation_vector_to_euler (\<lambda>r. gimbal_matrix) (0, pi / 2, 0) = (Fin 0, Fin 90, Fin 0)"
    using euler_extraction_formula [of "\<lambda>r. gimbal_matrix" "(0, pi / 2, 0)"]
    by (simp add: gimbal_matrix_def arctan2_def degrees_def Let_def)
  from a b show ?thesis by simp
qed

text \<open>
  C4, as stated: for every input rotation vector none of the three angles is NaN or Inf.
  It fails: for the rotation vector \<open>(1e155, 0, 0)\<close> the Rodrigues matrix is NaN in every
  entry, the test \<open>sy < 1e-6\<close> is false, and all three angles are NaN.
\<close>

theorem euler_nan_counterexample:
  "rotation_vector_to_euler (\<lambda>r. nan_matrix) (10 ^ 155, 0, 0) = (NaN, NaN, NaN) \<and> \<not> isfinite NaN"
  by (simp add: rotation_vector_to_euler_def nan_matrix_def)

text \<open>
  C4, amended: for every rotation vector for which the Rodrigues matrix has no NaN
  entry (every finite matrix, the identity of the case \<open>theta ~ 0\<close> and the gimbal-lock
  matrices with \<open>sy < 1e-6\<close> among them), the Euler conversion, a total function of its
  argument, returns three angles none of which is NaN or Inf.
\<close>

theorem euler_angles_finite:
  assumes "no_nan (rodrigues rvec)"
  shows "(case rotation_vector_to_euler rodrigues rvec of
            (roll, pitch, yaw) \<Rightarrow> isfinite roll \<and> isfinite pitch \<and> isfinite yaw)"
proof -
  define R where "R = rodrigues rvec"
  define sy where "sy = np_sqrt (fl_add (fl_square (R00 R)) (fl_square (R10 R)))"
  from assms have n: "\<not> isnan (R00 R)" "\<not> isnan (R10 R)" "\<not> isnan (R11 R)" "\<not> isnan (R12 R)"
    "\<not> isnan (R20 R)" "\<not> isnan (R21 R)" "\<not> isnan (R22 R)"
    by (simp_all add: no_nan_def R_def)
  have s: "\<not> isnan sy"
    using sy_cases [OF n(1) n(2)] by (auto simp: sy_def)
  have f: "isfinite (np_degrees (np_arctan2 (R21 R) (R22 R)))"
    "isfinite (np_degrees (np_arctan2 (fl_neg (R20 R)) sy))"
    "isfinite (np_degrees (np_arctan2 (R10 R) (R00 R)))"
    "isfinite (np_degrees (np_arctan2 (fl_neg (R12 R)) (R11 R)))"
    using n s by (simp_all add: degrees_finite arctan2_finite isnan_neg)
  show ?thesis
    using f by (simp add: rotation_vector_to_euler_def Let_def R_def [symmetric] sy_def [symmetric])
qed

theorem euler_angles_finite_witness:
  "no_nan gimbal_matrix \<and>
   (case rotation_vector_to_euler (\<lambda>r. gimbal_matrix) (0, pi / 2, 0) of
      (roll, pitch, yaw) \<Rightarrow> isfinite roll \<and> isfinite pitch \<and> isfinite yaw)"
proof -
  have h: "no_nan ((\<lambda>r. gimbal_matrix) (0, pi / 2, 0))"
    by (simp add: no_nan_def gimbal_matrix_def)
  from euler_angles_finite [OF h] h show ?thesis by simp
qed

text \<open>
  C9, as stated: for every input rotation vector the pitch lies in \<open>[-90, 90]\<close>. It
  fails: for the rotation vector \<open>(1e155, 0, 0)\<close> the Rodrigues matrix is NaN in every
  entry and the pitch is NaN, which is not between -90 and 90.
\<close>

theorem pitch_nan_counterexample:
  "fst (snd (rotation_vector_to_euler (\<lambda>r. nan_matrix) (10 ^ 155, 0, 0))) = NaN \<and>
   \<not> (fl_le (Fin (- 90)) NaN \<and> fl_le NaN (Fin 90))"
  by (simp add: rotation_vector_to_euler_def nan_matrix_def)

text \<open>
  C9, amended: for every rotation vector for which the Rodrigues matrix has no NaN
  entry, the pitch angle that the Euler conversion returns is a number in \<open>[-90, 90]\<close>
  degrees, in the singular and in the non-singular branch: it is atan2(-R20, sy) with
  \<open>sy\<close> a non-negative square root.
\<close>

theorem pitch_within_90_degrees:
  assumes "no_nan (rodrigues rvec)"
  shows "\<exists>p. fst (snd (rotation_vector_to_euler rodrigues rvec)) = Fin p \<and> - 90 \<le> p \<and> p \<le> 90"
proof -
  define R where "R = rodrigues rvec"
  define sy where "sy = np_sqrt (fl_add (fl_square (R00 R)) (fl_square (R10 R)))"
  from assms have n: "\<not> isnan (R00 R)" "\<not> isnan (R10 R)" "\<not> isnan (R20 R)"
    by (simp_all add: no_nan_def R_def)
  have s: "(\<exists>r. 0 \<le> r \<and> sy = Fin r) \<or> sy = PInf"
    unfolding sy_def by (rule sy_cases [OF n(1) n(2)])
  have "\<not> isnan (fl_neg (R20 R))" using n(3) by (simp add: isnan_neg)
  from arctan2_right_halfplane [OF this s]
  obtain a where a: "np_arctan2 (fl_neg (R20 R)) sy = Fin a" "- (pi / 2) \<le> a" "a \<le> pi / 2"
    by blast
  have p: "fst (snd (rotation_vector_to_euler rodrigues rvec)) = np_degrees (np_arctan2 (fl_neg (R20 R)) sy)"
    by (simp add: rotation_vector_to_euler_def Let_def R_def sy_def)
  from a degrees_bounds [OF a(2) a(3)] show ?thesis unfolding p by simp
qed

theorem pitch_within_90_degrees_witness:
  "no_nan gimbal_matrix \<and>
   fst (snd (rotation_vector_to_euler (\<lambda>r. gimbal_matrix) (0, pi / 2, 0))) = Fin 90"
proof -
  have h: "no_nan ((\<lambda>r. gimbal_matrix) (0, pi / 2, 0))"
    by (simp add: no_nan_def gimbal_matrix_def)
  from pitch_within_90_degrees [OF h] h
  show ?thesis
    by (simp add: rotation_vector_to_euler_def gimbal_matrix_def arctan2_def degrees_def Let_def)
qed


subsection \<open>Pose of one marker\<close>

lemma compute_pose_sample_square: "compute_pose sample_cv K D (square_marker i) = Inr (Some (sample_pose i))"
  by (simp add: compute_pose_def sample_cv_def square_marker_def sample_pose_def norm3_def
      rotation_vector_to_euler_def identity_matrix_def arctan2_def degrees_def Let_def)

lemma detectMarkers_sample: "detectMarkers sample_cv frame = frame"
  by (simp add: sample_cv_def)

lemma compute_pose_sample_degenerate: "compute_pose sample_cv K D (degenerate_marker i) = Inr None"
  by (simp add: compute_pose_def sample_cv_def degenerate_marker_def)

text \<open>
  C2, as stated: every solution with translation \<open>z \<le> 0\<close> is discarded. It fails: for an
  observation of exactly four corners, a solver result with success and \<open>z = -1\<close> is
  returned as the pose.
\<close>

theorem pose_behind_camera_counterexample:
  "length (corner_points (square_marker 7)) = 4 \<and>
   compute_pose sample_cv (YNull) (YNull) (square_marker 7) = Inr (Some (sample_pose 7)) \<and>
   snd (snd (pose_tvec (sample_pose 7))) \<le> 0"
  by (simp add: compute_pose_def sample_cv_def square_marker_def sample_pose_def norm3_def
      rotation_vector_to_euler_def identity_matrix_def arctan2_def degrees_def Let_def)

text \<open>
  C2, amended: for every marker observation the pose estimator returns the one solution
  \<open>(rvec, tvec)\<close> that \<^verbatim>\<open>cv2.solvePnP\<close> reports with success, whatever the sign of its
  translation \<open>z\<close>, and no pose when the solver reports no success; the script makes no
  depth test and no comparison of residuals of its own.
\<close>

theorem pose_is_solver_solution:
  "solvePnP cv marker_points (corner_points m) K D = Inr (success, rvec, tvec) \<Longrightarrow>
     (success \<longrightarrow>
        (\<exists>p. compute_pose cv K D m = Inr (Some p) \<and> pose_id p = marker_id m \<and>
             pose_tvec p = tvec \<and> pose_rvec p = rvec \<and>
             pose_euler p = rotation_vector_to_euler (Rodrigues cv) rvec \<and>
             pose_distance p = norm3 tvec)) \<and>
     (\<not> success \<longrightarrow> compute_pose cv K D m = Inr None)"
  by (simp add: compute_pose_def)

theorem pose_is_solver_solution_witness:
  "(\<exists>p. compute_pose sample_cv YNull YNull (square_marker 7) = Inr (Some p) \<and>
        pose_tvec p = (0, 0, - 1) \<and> pose_rvec p = (0, 0, 0)) \<and>
   compute_pose sample_cv YNull YNull (degenerate_marker 7) = Inr None"
proof -
  have a: "solvePnP sample_cv marker_points (corner_points (square_marker 7)) YNull YNull
             = Inr (True, (0, 0, 0), (0, 0, - 1))"
    by (simp add: sample_cv_def square_marker_def)
  have b: "solvePnP sample_cv marker_points (corner_points (degenerate_marker 7)) YNull YNull
             = Inr (False, (0, 0, 0), (0, 0, - 1))"
    by (simp add: sample_cv_def degenerate_marker_def)
  from pose_is_solver_solution [OF a] pose_is_solver_solution [OF b]
  show ?thesis by auto
qed

subsection \<open>Startup of the pose pipeline\<close>

text \<open>
  C8, as stated: a present file whose required fields are malformed is a fatal error before
  any frame is processed. It fails: with both fields present and holding a string instead
  of an array, the calibration loads, a frame is processed, and the run ends with status 0.
\<close>

theorem malformed_fields_not_fatal_counterexample:
  "aruco_pose sample_cv
     (Some (Inr (YMap [(''camera_matrix'', YStr ''abc''), (''dist_coeff'', YStr ''abc'')])))
     True [(None, 27)]
   = (Done, \<lparr> print_detailed = False, printed = [], frames_done = 1 \<rparr>) \<and>
   exit_status Done = 0"
  by (simp add: aruco_pose_def load_calibration_def sample_cv_def initial_state_def
      process_frame_def)

text \<open>
  C8, amended: at startup of the pose pipeline a missing calibration file (diagnostic and
  \<^verbatim>\<open>exit(1)\<close>), a file that cannot be loaded, a loaded document from which
  \<^verbatim>\<open>camera_matrix\<close> or \<^verbatim>\<open>dist_coeff\<close> cannot be read, or a value of one of the two
  fields for which \<^verbatim>\<open>np.array\<close> raises (uncaught exception, status 1) ends the process
  with a non-zero status before any frame is processed. A value that \<^verbatim>\<open>np.array\<close>
  accepts is not checked further: the main loop then runs with the two arrays as
  \<^verbatim>\<open>np.array\<close> made them.
\<close>

theorem startup_failure_is_fatal:
  "((cfile = None \<or> (\<exists>e. cfile = Some (Inl e)) \<or>
     (\<exists>d. cfile = Some (Inr d) \<and>
          (isl (subscript d ''camera_matrix'') \<or>
           (\<exists>v. subscript d ''camera_matrix'' = Inr v \<and> isl (np_array cv v)) \<or>
           isl (subscript d ''dist_coeff'') \<or>
           (\<exists>v. subscript d ''dist_coeff'' = Inr v \<and> isl (np_array cv v)))))
      \<longrightarrow> exit_status (fst (aruco_pose cv cfile opened inputs)) = 1 \<and>
          frames_done (snd (aruco_pose cv cfile opened inputs)) = 0 \<and>
          printed (snd (aruco_pose cv cfile opened inputs)) = [] \<and>
          (cfile = None \<longrightarrow> fst (aruco_pose cv cfile opened inputs) = Exit 1 CalibrationFileNotFound)) \<and>
   (cfile = Some (Inr doc) \<and>
    subscript doc ''camera_matrix'' = Inr cm \<and> np_array cv cm = Inr K \<and>
    subscript doc ''dist_coeff'' = Inr dc \<and> np_array cv dc = Inr D \<and> opened
      \<longrightarrow> aruco_pose cv cfile opened inputs =
            (case main_loop cv K D inputs initial_state of
               (Some e, s) \<Rightarrow> (Uncaught e, s)
             | (None, s) \<Rightarrow> (Done, s)))"
proof (intro conjI impI)
  assume h: "cfile = None \<or> (\<exists>e. cfile = Some (Inl e)) \<or>
     (\<exists>d. cfile = Some (Inr d) \<and>
          (isl (subscript d ''camera_matrix'') \<or>
           (\<exists>v. subscript d ''camera_matrix'' = Inr v \<and> isl (np_array cv v)) \<or>
           isl (subscript d ''dist_coeff'') \<or>
           (\<exists>v. subscript d ''dist_coeff'' = Inr v \<and> isl (np_array cv v))))"
  then have "\<exists>stop. load_calibration cv cfile = Inl stop \<and> exit_status stop = 1 \<and>
                (cfile = None \<longrightarrow> stop = Exit 1 CalibrationFileNotFound)"
    by (auto simp: load_calibration_def isl_def split: option.splits sum.splits)
  then obtain stop where s: "load_calibration cv cfile = Inl stop" "exit_status stop = 1"
      "cfile = None \<longrightarrow> stop = Exit 1 CalibrationFileNotFound"
    by blast
  then have r: "aruco_pose cv cfile opened inputs = (stop, initial_state)"
    by (simp add: aruco_pose_def)
  from r s show "exit_status (fst (aruco_pose cv cfile opened inputs)) = 1" by simp
  from r show "frames_done (snd (aruco_pose cv cfile opened inputs)) = 0"
    by (simp add: initial_state_def)
  from r show "printed (snd (aruco_pose cv cfile opened inputs)) = []"
    by (simp add: initial_state_def)
  from r s show "cfile = None \<Longrightarrow> fst (aruco_pose cv cfile opened inputs) = Exit 1 CalibrationFileNotFound"
    by simp
next
  assume "cfile = Some (Inr doc) \<and>
    subscript doc ''camera_matrix'' = Inr cm \<and> np_array cv cm = Inr K \<and>
    subscript doc ''dist_coeff'' = Inr dc \<and> np_array cv dc = Inr D \<and> opened"
  then show "aruco_pose cv cfile opened inputs =
            (case main_loop cv K D inputs initial_state of
               (Some e, s) \<Rightarrow> (Uncaught e, s)
             | (None, s) \<Rightarrow> (Done, s))"
    by (simp add: aruco_pose_def load_calibration_def)
qed


text \<open>
  The cases at concrete files: no file; a \<^verbatim>\<open>camera_matrix\<close> for which
  \<^verbatim>\<open>np.array\<close> raises; no \<^verbatim>\<open>dist_coeff\<close>; and two strings, which are accepted.
\<close>

theorem startup_failure_is_fatal_witness:
  "aruco_pose sample_cv None True [(None, 27)] = (Exit 1 CalibrationFileNotFound, initial_state) \<and>
   exit_status (fst (aruco_pose sample_cv
     (Some (Inr (YMap [(''camera_matrix'', YSeq [YSeq [YNum 1, YNum 2], YSeq [YNum 3]]),
                       (''dist_coeff'', YSeq [])]))) True [(None, 27)])) = 1 \<and>
   frames_done (snd (aruco_pose sample_cv
     (Some (Inr (YMap [(''camera_matrix'', YSeq [YSeq [YNum 1, YNum 2], YSeq [YNum 3]]),
                       (''dist_coeff'', YSeq [])]))) True [(None, 27)])) = 0 \<and>
   exit_status (fst (aruco_pose sample_cv
     (Some (Inr (YMap [(''camera_matrix'', YSeq [])]))) True [(None, 27)])) = 1 \<and>
   aruco_pose sample_cv
     (Some (Inr (YMap [(''camera_matrix'', YStr ''abc''), (''dist_coeff'', YStr ''xyz'')]))) True
     [(None, 27)]
   = (case main_loop sample_cv (YStr ''abc'') (YStr ''xyz'') [(None, 27)] initial_state of
        (Some e, s) \<Rightarrow> (Uncaught e, s)
      | (None, s) \<Rightarrow> (Done, s))"
proof -
  note t = startup_failure_is_fatal [where cv = sample_cv and opened = True and inputs = "[(None, 27)]"]
  have n: "np_array sample_cv (YSeq [YSeq [YNum 1, YNum 2], YSeq [YNum 3]]) = Inl ValueError"
    "np_array sample_cv (YStr ''abc'') = Inr (YStr ''abc'')"
    "np_array sample_cv (YStr ''xyz'') = Inr (YStr ''xyz'')"
    by (simp_all add: sample_cv_def)
  have a: "aruco_pose sample_cv None True [(None, 27)] = (Exit 1 CalibrationFileNotFound, initial_state)"
    using t [where cfile = None, THEN conjunct1]
    by (simp add: aruco_pose_def load_calibration_def)
  have b: "exit_status (fst (aruco_pose sample_cv
     (Some (Inr (YMap [(''camera_matrix'', YSeq [YSeq [YNum 1, YNum 2], YSeq [YNum 3]]),
                       (''dist_coeff'', YSeq [])]))) True [(None, 27)])) = 1 \<and>
   frames_done (snd (aruco_pose sample_cv
     (Some (Inr (YMap [(''camera_matrix'', YSeq [YSeq [YNum 1, YNum 2], YSeq [YNum 3]]),
                       (''dist_coeff'', YSeq [])]))) True [(None, 27)])) = 0"
    using t [where cfile = "Some (Inr (YMap [(''camera_matrix'', YSeq [YSeq [YNum 1, YNum 2], YSeq [YNum 3]]),
                       (''dist_coeff'', YSeq [])]))", THEN conjunct1]
    by (simp add: n)
  have c: "exit_status (fst (aruco_pose sample_cv
     (Some (Inr (YMap [(''camera_matrix'', YSeq [])]))) True [(None, 27)])) = 1"
    using t [where cfile = "Some (Inr (YMap [(''camera_matrix'', YSeq [])]))", THEN conjunct1]
    by simp
  have d: "aruco_pose sample_cv
     (Some (Inr (YMap [(''camera_matrix'', YStr ''abc''), (''dist_coeff'', YStr ''xyz'')]))) True
     [(None, 27)]
   = (case main_loop sample_cv (YStr ''abc'') (YStr ''xyz'') [(None, 27)] initial_state of
        (Some e, s) \<Rightarrow> (Uncaught e, s)
      | (None, s) \<Rightarrow> (Done, s))"
    using t [where cfile = "Some (Inr (YMap [(''camera_matrix'', YStr ''abc''), (''dist_coeff'', YStr ''xyz'')]))"
               and doc = "YMap [(''camera_matrix'', YStr ''abc''), (''dist_coeff'', YStr ''xyz'')]"
               and cm = "YStr ''abc''" and dc = "YStr ''xyz''"
               and K = "YStr ''abc''" and D = "YStr ''xyz''", THEN conjunct2]
    by (simp add: n)
  from a b c d show ?thesis by blast
qed


subsection \<open>The print-detailed flag\<close>

lemma marker_loop_flag_clear:
  "\<not> print_detailed s \<Longrightarrow> snd (marker_loop cv K D ms s) = s"
  by (induction ms) (auto split: sum.splits option.splits)

lemma marker_loop_no_success:
  "\<forall>m \<in> set ms. compute_pose cv K D m = Inr None \<Longrightarrow> marker_loop cv K D ms s = (None, s)"
  by (induction ms) auto

lemma marker_loop_first_success:
  assumes "print_detailed s"
    and "\<forall>m' \<in> set pre. compute_pose cv K D m' = Inr None"
    and "compute_pose cv K D m = Inr (Some p)"
  shows "snd (marker_loop cv K D (pre @ m # post) s)
           = s\<lparr> printed := printed s @ [p], print_detailed := False \<rparr>"
  using assms
proof (induction pre)
  case Nil
  then show ?case by (simp add: marker_loop_flag_clear)
next
  case (Cons a pre)
  then show ?case by simp
qed

lemma marker_loop_budget:
  "length (printed (snd (marker_loop cv K D ms s))) + pending (snd (marker_loop cv K D ms s))
     = length (printed s) + pending s"
proof (induction ms arbitrary: s)
  case Nil
  then show ?case by simp
next
  case (Cons m ms)
  show ?case
  proof (cases "compute_pose cv K D m")
    case (Inl e)
    then show ?thesis by simp
  next
    case (Inr r)
    show ?thesis
    proof (cases r)
      case None
      with Inr Cons show ?thesis by simp
    next
      case (Some p)
      show ?thesis
      proof (cases "print_detailed s")
        case True
        have "length (printed (snd (marker_loop cv K D (m # ms) s))) + pending (snd (marker_loop cv K D (m # ms) s))
            = length (printed (s\<lparr> printed := printed s @ [p], print_detailed := False \<rparr>))
              + pending (s\<lparr> printed := printed s @ [p], print_detailed := False \<rparr>)"
          using Inr Some True Cons [of "s\<lparr> printed := printed s @ [p], print_detailed := False \<rparr>"]
          by simp
        also have "\<dots> = length (printed s) + pending s"
          using True by (simp add: pending_def)
        finally show ?thesis .
      next
        case False
        with Inr Some Cons show ?thesis by simp
      qed
    qed
  qed
qed

lemma process_frame_budget:
  "length (printed (snd (process_frame cv K D frame s))) + pending (snd (process_frame cv K D frame s))
     = length (printed s) + pending s"
  by (simp add: process_frame_def marker_loop_budget split: option.splits)

lemma main_loop_budget:
  "length (printed (snd (main_loop cv K D inputs s))) + pending (snd (main_loop cv K D inputs s))
     \<le> length (printed s) + pending s + length (filter (\<lambda>(frame, wk). and wk 255 = 112) inputs)"
proof (induction inputs arbitrary: s)
  case Nil
  then show ?case by simp
next
  case (Cons a inputs)
  obtain frame wk where a: "a = (frame, wk)" by (cases a)
  define s0 where "s0 = s\<lparr> frames_done := Suc (frames_done s) \<rparr>"
  obtain r s' where pf: "process_frame cv K D frame s0 = (r, s')" by (cases "process_frame cv K D frame s0")
  have b: "length (printed s') + pending s' = length (printed s) + pending s"
    using process_frame_budget [of cv K D frame s0] pf by (simp add: s0_def pending_def)
  show ?case
  proof (cases r)
    case (Some e)
    with a pf b show ?thesis by (simp add: s0_def [symmetric])
  next
    case None
    show ?thesis
    proof (cases "and wk 255 = 27 \<or> and wk 255 = 113")
      case True
      with a pf b None show ?thesis by (auto simp: s0_def [symmetric] Let_def)
    next
      case False
      show ?thesis
      proof (cases "and wk 255 = 112")
        case True
        have "pending (s'\<lparr> print_detailed := True \<rparr>) \<le> pending s' + 1"
          by (simp add: pending_def)
        with Cons [of "s'\<lparr> print_detailed := True \<rparr>"] a pf b None False True
        show ?thesis by (simp add: s0_def [symmetric] Let_def)
      next
        case F2: False
        with Cons [of s'] a pf b None False
        show ?thesis by (simp add: s0_def [symmetric] Let_def)
      qed
    qed
  qed
qed

lemma aruco_pose_budget:
  "length (printed (snd (aruco_pose cv file opened inputs)))
     \<le> length (filter (\<lambda>(frame, wk). and wk 255 = 112) inputs)"
proof -
  have i: "length (printed initial_state) + pending initial_state = 0"
    by (simp add: initial_state_def pending_def)
  show ?thesis
  proof (cases "load_calibration cv file")
    case (Inl stop)
    then show ?thesis by (simp add: aruco_pose_def initial_state_def)
  next
    case (Inr kd)
    obtain K D where kd: "kd = (K, D)" by (cases kd)
    show ?thesis
    proof (cases opened)
      case False
      with Inr kd show ?thesis by (simp add: aruco_pose_def initial_state_def)
    next
      case True
      obtain r s where ml: "main_loop cv K D inputs initial_state = (r, s)"
        by (cases "main_loop cv K D inputs initial_state")
      have "length (printed s) \<le> length (filter (\<lambda>(frame, wk). and wk 255 = 112) inputs)"
        using main_loop_budget [of cv K D inputs initial_state] ml i by simp
      with Inr kd True ml show ?thesis
        by (cases r) (simp_all add: aruco_pose_def)
    qed
  qed
qed

lemma marker_loop_no_exception:
  "\<forall>m \<in> set ms. \<not> isl (compute_pose cv K D m) \<Longrightarrow> fst (marker_loop cv K D ms s) = None"
  by (induction ms arbitrary: s) (auto split: sum.splits option.splits)

lemma process_frame_idle: "no_pose cv K D frame \<Longrightarrow> process_frame cv K D frame s = (None, s)"
  by (simp add: no_pose_def process_frame_def marker_loop_no_success split: option.splits)

lemma flag_already_set: "print_detailed s \<Longrightarrow> s\<lparr> print_detailed := True \<rparr> = s"
  by (cases s) simp

lemma main_loop_idle_frame:
  assumes "print_detailed s" "no_pose cv K D frame" "\<not> quit_key wk"
  shows "main_loop cv K D ((frame, wk) # rest) s
           = main_loop cv K D rest (s\<lparr> frames_done := Suc (frames_done s) \<rparr>)"
proof -
  have p: "process_frame cv K D frame (s\<lparr> frames_done := Suc (frames_done s) \<rparr>)
             = (None, s\<lparr> frames_done := Suc (frames_done s) \<rparr>)"
    using assms(2) by (rule process_frame_idle)
  have f: "(s\<lparr> frames_done := Suc (frames_done s) \<rparr>)\<lparr> print_detailed := True \<rparr>
             = s\<lparr> frames_done := Suc (frames_done s) \<rparr>"
    using assms(1) by (intro flag_already_set) simp
  from assms(3) show ?thesis
    by (simp add: p f quit_key_def Let_def)
qed

lemma main_loop_stays_pending:
  assumes "print_detailed s"
    and "\<forall>(frame, wk) \<in> set idle. no_pose cv K D frame \<and> \<not> quit_key wk"
  shows "main_loop cv K D (idle @ rest) s
           = main_loop cv K D rest (s\<lparr> frames_done := frames_done s + length idle \<rparr>)"
  using assms
proof (induction idle arbitrary: s)
  case Nil
  then show ?case by simp
next
  case (Cons a idle)
  obtain frame wk where a: "a = (frame, wk)" by (cases a)
  from Cons.prems a have n: "no_pose cv K D frame" "\<not> quit_key wk"
    and r: "\<forall>(frame, wk) \<in> set idle. no_pose cv K D frame \<and> \<not> quit_key wk"
    by auto
  have t: "print_detailed (s\<lparr> frames_done := Suc (frames_done s) \<rparr>)"
    using Cons.prems(1) by simp
  have "main_loop cv K D ((a # idle) @ rest) s
          = main_loop cv K D (idle @ rest) (s\<lparr> frames_done := Suc (frames_done s) \<rparr>)"
    using main_loop_idle_frame [OF Cons.prems(1) n, of "idle @ rest"] a by simp
  also have "\<dots> = main_loop cv K D rest
      ((s\<lparr> frames_done := Suc (frames_done s) \<rparr>)
         \<lparr> frames_done := frames_done (s\<lparr> frames_done := Suc (frames_done s) \<rparr>) + length idle \<rparr>)"
    by (rule Cons.IH [OF t r])
  also have "\<dots> = main_loop cv K D rest (s\<lparr> frames_done := frames_done s + length (a # idle) \<rparr>)"
    by simp
  finally show ?case .
qed

lemma main_loop_consumes:
  assumes "print_detailed s"
    and "detectMarkers cv frame = Some (pre @ m # post)"
    and "\<forall>m' \<in> set pre. compute_pose cv K D m' = Inr None"
    and "compute_pose cv K D m = Inr (Some p)"
    and "\<forall>m' \<in> set post. \<not> isl (compute_pose cv K D m')"
    and "\<not> quit_key wk"
  shows "main_loop cv K D ((frame, wk) # rest) s
           = main_loop cv K D rest
               (s\<lparr> frames_done := Suc (frames_done s), printed := printed s @ [p],
                   print_detailed := (and wk 255 = 112) \<rparr>)"
proof -
  define s0 where "s0 = s\<lparr> frames_done := Suc (frames_done s) \<rparr>"
  have f0: "print_detailed s0" using assms(1) by (simp add: s0_def)
  have e: "\<forall>m' \<in> set (pre @ m # post). \<not> isl (compute_pose cv K D m')"
    using assms(3,4,5) by auto
  have "fst (marker_loop cv K D (pre @ m # post) s0) = None"
    using e by (rule marker_loop_no_exception)
  moreover have "snd (marker_loop cv K D (pre @ m # post) s0)
           = s0\<lparr> printed := printed s0 @ [p], print_detailed := False \<rparr>"
    using f0 assms(3,4) by (rule marker_loop_first_success)
  ultimately have ml: "marker_loop cv K D (pre @ m # post) s0
           = (None, s0\<lparr> printed := printed s0 @ [p], print_detailed := False \<rparr>)"
    by (simp add: prod_eq_iff)
  have pf: "process_frame cv K D frame s0
           = (None, s0\<lparr> printed := printed s0 @ [p], print_detailed := False \<rparr>)"
    using assms(2) ml by (simp add: process_frame_def)
  from assms(6) show ?thesis
    by (simp add: pf s0_def [symmetric] quit_key_def Let_def) (simp add: s0_def)
qed

lemma main_loop_no_request:
  assumes "\<not> print_detailed s"
    and "fst (process_frame cv K D frame (s\<lparr> frames_done := Suc (frames_done s) \<rparr>)) = None"
    and "\<not> quit_key wk" and "and wk 255 \<noteq> 112"
  shows "main_loop cv K D ((frame, wk) # rest) s
           = main_loop cv K D rest (s\<lparr> frames_done := Suc (frames_done s) \<rparr>)"
proof -
  define s0 where "s0 = s\<lparr> frames_done := Suc (frames_done s) \<rparr>"
  have "\<not> print_detailed s0" using assms(1) by (simp add: s0_def)
  then have "snd (process_frame cv K D frame s0) = s0"
    by (simp add: process_frame_def marker_loop_flag_clear split: option.splits)
  with assms(2) have pf: "process_frame cv K D frame s0 = (None, s0)"
    by (simp add: prod_eq_iff s0_def)
  from assms(3,4) show ?thesis
    by (simp add: pf s0_def [symmetric] quit_key_def Let_def)
qed

text \<open>
  C7. The print-detailed request is a one-shot flag. A \<^verbatim>\<open>p\<close> key sets it after the
  frame's markers are processed. While it is set it stays set over every frame in which
  no pose succeeds, whatever keys other than the quit keys are read. The first successful
  pose computation that follows prints the detailed pose of that one marker and clears
  the flag; the later poses of that frame and of the frames after it print nothing,
  unless \<^verbatim>\<open>p\<close> is read again. Over a whole run no more detailed poses are printed
  than \<^verbatim>\<open>p\<close> keys were read.
\<close>

theorem print_detailed_one_shot:
  "(and wk 255 = 112 \<and> process_frame cv K D frame (s\<lparr> frames_done := Suc (frames_done s) \<rparr>) = (None, s')
      \<longrightarrow> main_loop cv K D ((frame, wk) # rest) s = main_loop cv K D rest (s'\<lparr> print_detailed := True \<rparr>)) \<and>
   (print_detailed s \<and> (\<forall>(f, k) \<in> set idle. no_pose cv K D f \<and> \<not> quit_key k)
      \<longrightarrow> main_loop cv K D (idle @ rest) s
            = main_loop cv K D rest (s\<lparr> frames_done := frames_done s + length idle \<rparr>)) \<and>
   (print_detailed s \<and> (\<forall>(f, k) \<in> set idle. no_pose cv K D f \<and> \<not> quit_key k) \<and>
    detectMarkers cv frame = Some (pre @ m # post) \<and>
    (\<forall>m' \<in> set pre. compute_pose cv K D m' = Inr None) \<and> compute_pose cv K D m = Inr (Some p) \<and>
    (\<forall>m' \<in> set post. \<not> isl (compute_pose cv K D m')) \<and> \<not> quit_key wk
      \<longrightarrow> main_loop cv K D (idle @ (frame, wk) # rest) s
            = main_loop cv K D rest
                (s\<lparr> frames_done := Suc (frames_done s + length idle), printed := printed s @ [p],
                    print_detailed := (and wk 255 = 112) \<rparr>)) \<and>
   (\<not> print_detailed s \<and>
    fst (process_frame cv K D frame (s\<lparr> frames_done := Suc (frames_done s) \<rparr>)) = None \<and>
    \<not> quit_key wk \<and> and wk 255 \<noteq> 112
      \<longrightarrow> main_loop cv K D ((frame, wk) # rest) s
            = main_loop cv K D rest (s\<lparr> frames_done := Suc (frames_done s) \<rparr>)) \<and>
   (\<not> print_detailed s \<longrightarrow> snd (process_frame cv K D frame s) = s) \<and>
   length (printed (snd (aruco_pose cv cfile opened inputs)))
     \<le> length (filter (\<lambda>(frame, wk). and wk 255 = 112) inputs)"
proof (intro conjI impI)
  assume "and wk 255 = 112 \<and> process_frame cv K D frame (s\<lparr> frames_done := Suc (frames_done s) \<rparr>) = (None, s')"
  then show "main_loop cv K D ((frame, wk) # rest) s = main_loop cv K D rest (s'\<lparr> print_detailed := True \<rparr>)"
    by (simp add: Let_def)
next
  assume "print_detailed s \<and> (\<forall>(f, k) \<in> set idle. no_pose cv K D f \<and> \<not> quit_key k)"
  then have a: "print_detailed s"
    and b: "\<forall>(f, k) \<in> set idle. no_pose cv K D f \<and> \<not> quit_key k"
    by blast+
  show "main_loop cv K D (idle @ rest) s
            = main_loop cv K D rest (s\<lparr> frames_done := frames_done s + length idle \<rparr>)"
    by (rule main_loop_stays_pending [OF a b])
next
  assume h: "print_detailed s \<and> (\<forall>(f, k) \<in> set idle. no_pose cv K D f \<and> \<not> quit_key k) \<and>
    detectMarkers cv frame = Some (pre @ m # post) \<and>
    (\<forall>m' \<in> set pre. compute_pose cv K D m' = Inr None) \<and> compute_pose cv K D m = Inr (Some p) \<and>
    (\<forall>m' \<in> set post. \<not> isl (compute_pose cv K D m')) \<and> \<not> quit_key wk"
  define s1 where "s1 = s\<lparr> frames_done := frames_done s + length idle \<rparr>"
  have f1: "print_detailed s1" using h by (simp add: s1_def)
  have "main_loop cv K D (idle @ (frame, wk) # rest) s = main_loop cv K D ((frame, wk) # rest) s1"
  proof -
    from h have a: "print_detailed s"
      and b: "\<forall>(f, k) \<in> set idle. no_pose cv K D f \<and> \<not> quit_key k"
      by blast+
    show ?thesis unfolding s1_def by (rule main_loop_stays_pending [OF a b])
  qed
  also have "\<dots> = main_loop cv K D rest
               (s1\<lparr> frames_done := Suc (frames_done s1), printed := printed s1 @ [p],
                    print_detailed := (and wk 255 = 112) \<rparr>)"
  proof -
    from h have d: "detectMarkers cv frame = Some (pre @ m # post)"
      and n: "\<forall>m' \<in> set pre. compute_pose cv K D m' = Inr None"
      and c: "compute_pose cv K D m = Inr (Some p)"
      and e: "\<forall>m' \<in> set post. \<not> isl (compute_pose cv K D m')"
      and q: "\<not> quit_key wk"
      by blast+
    show ?thesis by (rule main_loop_consumes [OF f1 d n c e q])
  qed
  also have "\<dots> = main_loop cv K D rest
                (s\<lparr> frames_done := Suc (frames_done s + length idle), printed := printed s @ [p],
                    print_detailed := (and wk 255 = 112) \<rparr>)"
    by (simp add: s1_def)
  finally show "main_loop cv K D (idle @ (frame, wk) # rest) s
            = main_loop cv K D rest
                (s\<lparr> frames_done := Suc (frames_done s + length idle), printed := printed s @ [p],
                    print_detailed := (and wk 255 = 112) \<rparr>)" .
next
  assume "\<not> print_detailed s \<and>
    fst (process_frame cv K D frame (s\<lparr> frames_done := Suc (frames_done s) \<rparr>)) = None \<and>
    \<not> quit_key wk \<and> and wk 255 \<noteq> 112"
  then have a: "\<not> print_detailed s"
    and b: "fst (process_frame cv K D frame (s\<lparr> frames_done := Suc (frames_done s) \<rparr>)) = None"
    and c: "\<not> quit_key wk" and d: "and wk 255 \<noteq> 112"
    by blast+
  show "main_loop cv K D ((frame, wk) # rest) s
            = main_loop cv K D rest (s\<lparr> frames_done := Suc (frames_done s) \<rparr>)"
    by (rule main_loop_no_request [OF a b c d])
next
  assume "\<not> print_detailed s"
  then show "snd (process_frame cv K D frame s) = s"
    by (simp add: process_frame_def marker_loop_flag_clear split: option.splits)
next
  show "length (printed (snd (aruco_pose cv cfile opened inputs)))
     \<le> length (filter (\<lambda>(frame, wk). and wk 255 = 112) inputs)"
    by (rule aruco_pose_budget)
qed

text \<open>
  A pending request over a frame without markers and a frame whose only marker has no
  pose, with \<^verbatim>\<open>p\<close> read once more: the request stays. Then a frame without markers
  and a frame with a marker without a pose and two markers with a pose, followed by one
  more frame with a pose: only the pose of marker 3 is printed.
\<close>

theorem print_detailed_one_shot_witness:
  "main_loop sample_cv YNull YNull [(None, - 1), (Some [degenerate_marker 1], 112)]
       \<lparr> print_detailed = True, printed = [], frames_done = 1 \<rparr>
     = (None, \<lparr> print_detailed = True, printed = [], frames_done = 3 \<rparr>) \<and>
   main_loop sample_cv YNull YNull
       [(None, - 1), (Some [degenerate_marker 2, square_marker 3, square_marker 4], - 1),
        (Some [square_marker 5], - 1)]
       \<lparr> print_detailed = True, printed = [], frames_done = 3 \<rparr>
     = (None, \<lparr> print_detailed = False, printed = [sample_pose 3], frames_done = 6 \<rparr>) \<and>
   length (printed (snd (aruco_pose sample_cv
       (Some (Inr (YMap [(''camera_matrix'', YNull), (''dist_coeff'', YNull)]))) True
       [(None, 112), (Some [degenerate_marker 1], - 1),
        (Some [degenerate_marker 2, square_marker 3, square_marker 4], - 1),
        (Some [square_marker 5], - 1)]))) \<le> 1"
proof -
  note cp = compute_pose_sample_square compute_pose_sample_degenerate detectMarkers_sample
  note t = print_detailed_one_shot [where cv = sample_cv and K = YNull and D = YNull]
  have i: "no_pose sample_cv YNull YNull None"
    "no_pose sample_cv YNull YNull (Some [degenerate_marker 1])"
    by (simp_all add: no_pose_def cp)
  have q: "\<not> quit_key (- 1)" "\<not> quit_key 112"
    by (simp_all add: quit_key_def)
  have a: "main_loop sample_cv YNull YNull [(None, - 1), (Some [degenerate_marker 1], 112)]
       \<lparr> print_detailed = True, printed = [], frames_done = 1 \<rparr>
     = (None, \<lparr> print_detailed = True, printed = [], frames_done = 3 \<rparr>)"
    using t [where s = "\<lparr> print_detailed = True, printed = [], frames_done = 1 \<rparr>"
               and idle = "[(None, - 1), (Some [degenerate_marker 1], 112)]" and rest = "[]",
             THEN conjunct2, THEN conjunct1]
    by (simp add: i q)
  have b: "main_loop sample_cv YNull YNull
       ([(None, - 1)] @ (Some [degenerate_marker 2, square_marker 3, square_marker 4], - 1) #
        [(Some [square_marker 5], - 1)])
       \<lparr> print_detailed = True, printed = [], frames_done = 3 \<rparr>
     = main_loop sample_cv YNull YNull [(Some [square_marker 5], - 1)]
         \<lparr> print_detailed = False, printed = [sample_pose 3], frames_done = 5 \<rparr>"
    using t [where s = "\<lparr> print_detailed = True, printed = [], frames_done = 3 \<rparr>"
               and idle = "[(None, - 1)]" and wk = "- 1"
               and frame = "Some [degenerate_marker 2, square_marker 3, square_marker 4]"
               and pre = "[degenerate_marker 2]" and m = "square_marker 3"
               and post = "[square_marker 4]" and p = "sample_pose 3"
               and rest = "[(Some [square_marker 5], - 1)]",
             THEN conjunct2, THEN conjunct2, THEN conjunct1]
    by (simp add: i q cp)
  have c: "main_loop sample_cv YNull YNull [(Some [square_marker 5], - 1)]
         \<lparr> print_detailed = False, printed = [sample_pose 3], frames_done = 5 \<rparr>
     = (None, \<lparr> print_detailed = False, printed = [sample_pose 3], frames_done = 6 \<rparr>)"
    using t [where s = "\<lparr> print_detailed = False, printed = [sample_pose 3], frames_done = 5 \<rparr>"
               and frame = "Some [square_marker 5]" and wk = "- 1" and rest = "[]",
             THEN conjunct2, THEN conjunct2, THEN conjunct2, THEN conjunct1]
    by (simp add: q process_frame_def cp)
  have d: "length (printed (snd (aruco_pose sample_cv
       (Some (Inr (YMap [(''camera_matrix'', YNull), (''dist_coeff'', YNull)]))) True
       [(None, 112), (Some [degenerate_marker 1], - 1),
        (Some [degenerate_marker 2, square_marker 3, square_marker 4], - 1),
        (Some [square_marker 5], - 1)]))) \<le> 1"
    using t [where cfile = "Some (Inr (YMap [(''camera_matrix'', YNull), (''dist_coeff'', YNull)]))"
               and opened = True
               and inputs = "[(None, 112), (Some [degenerate_marker 1], - 1),
        (Some [degenerate_marker 2, square_marker 3, square_marker 4], - 1),
        (Some [square_marker 5], - 1)]",
             THEN conjunct2, THEN conjunct2, THEN conjunct2, THEN conjunct2, THEN conjunct2]
    by simp
  from b c have bc: "main_loop sample_cv YNull YNull
       [(None, - 1), (Some [degenerate_marker 2, square_marker 3, square_marker 4], - 1),
        (Some [square_marker 5], - 1)]
       \<lparr> print_detailed = True, printed = [], frames_done = 3 \<rparr>
     = (None, \<lparr> print_detailed = False, printed = [sample_pose 3], frames_done = 6 \<rparr>)"
    by simp
  from a bc d show ?thesis by blast
qed

text \<open>The run of the four frames above, evaluated.\<close>

lemma aruco_pose_sample_run:
  "aruco_pose sample_cv
       (Some (Inr (YMap [(''camera_matrix'', YNull), (''dist_coeff'', YNull)]))) True
       [(None, 112), (Some [degenerate_marker 1], - 1),
        (Some [degenerate_marker 2, square_marker 3, square_marker 4], - 1),
        (Some [square_marker 5], - 1)]
   = (Done, \<lparr> print_detailed = False, printed = [sample_pose 3], frames_done = 4 \<rparr>)"
proof -
  have l: "load_calibration sample_cv
       (Some (Inr (YMap [(''camera_matrix'', YNull), (''dist_coeff'', YNull)]))) = Inr (YNull, YNull)"
    by (simp add: load_calibration_def sample_cv_def)
  show ?thesis
    by (simp add: aruco_pose_def l initial_state_def process_frame_def detectMarkers_sample
        compute_pose_sample_square compute_pose_sample_degenerate)
qed


section \<open>Properties of calibrate.py\<close>


subsection \<open>Collecting the samples\<close>

lemma image_loop_successful:
  "successful (image_loop cv images s) = successful s + length (filter (sample_ok cv) images)"
  by (induction images arbitrary: s)
     (auto simp: sample_ok_def Let_def split: option.splits prod.splits)

lemma image_loop_gray:
  "gray s \<noteq> None \<or> successful s = 0 \<Longrightarrow>
   gray (image_loop cv images s) \<noteq> None \<or> successful (image_loop cv images s) = 0"
  by (induction images arbitrary: s)
     (auto simp: Let_def split: option.splits prod.splits)

lemma collected_successful:
  "successful (image_loop cv images collect_init) = length (filter (sample_ok cv) images)"
  by (simp add: image_loop_successful collect_init_def)

lemma collected_gray:
  "0 < length (filter (sample_ok cv) images) \<Longrightarrow> \<exists>g. gray (image_loop cv images collect_init) = Some g"
proof -
  assume p: "0 < length (filter (sample_ok cv) images)"
  have "gray (collect_init :: 'b collect_state) \<noteq> None \<or> successful (collect_init :: 'b collect_state) = 0"
    by (simp add: collect_init_def)
  then have "gray (image_loop cv images collect_init) \<noteq> None \<or>
             successful (image_loop cv images collect_init) = 0"
    by (rule image_loop_gray)
  with p show ?thesis by (auto simp: collected_successful)
qed

text \<open>
  C3. Calibration fails with \<open>InsufficientSamples\<close> exactly when fewer than 3 samples
  were processed successfully: with 2 successful samples the run ends with that error,
  and with exactly 3 samples for which the solve returns, the calibration is computed and
  saved. The statement is about a run that reaches the loop over the images: the image
  directory exists and holds at least one \<^verbatim>\<open>.jpg\<close> file.
\<close>

theorem insufficient_samples_iff:
  assumes "dir_exists" and "images \<noteq> []"
  shows
    "((\<exists>n. calib_ending (calibrate cv dir_exists images) = Exit 1 (InsufficientSamples n))
        \<longleftrightarrow> length (filter (sample_ok cv) images) < 3) \<and>
     (length (filter (sample_ok cv) images) = 2 \<longrightarrow>
        calibrate cv dir_exists images = stopped (Exit 1 (InsufficientSamples 2))) \<and>
     (length (filter (sample_ok cv) images) = 3 \<and>
      (\<forall>size. \<exists>r. calibrateCamera cv (objpoints (image_loop cv images collect_init))
                     (imgpoints (image_loop cv images collect_init)) size = Inr r) \<longrightarrow>
        calib_ending (calibrate cv dir_exists images) = Done \<and>
        saved_file (calibrate cv dir_exists images) \<noteq> None)"
proof -
  define s where "s = image_loop cv images collect_init"
  have n: "successful s = length (filter (sample_ok cv) images)"
    by (simp add: s_def collected_successful)
  have c: "calibrate cv dir_exists images =
     (if successful s < 3 then stopped (Exit 1 (InsufficientSamples (successful s)))
            else
              (case gray s of
                 None \<Rightarrow> stopped (Uncaught AttributeError)
               | Some g \<Rightarrow>
                   (case calibrateCamera cv (objpoints s) (imgpoints s) (prod.swap (shape cv g)) of
                      Inl e \<Rightarrow>
                        if e = Cv2Error then stopped (Exit 1 CalibrationFailed)
                        else stopped (Uncaught e)
                    | Inr (ret, mtx, dcoef) \<Rightarrow>
                        \<lparr> calib_ending = Done,
                          quality_report = Some (calibration_quality ret),
                          saved_file = Some \<lparr> yaml_camera_matrix = mtx, yaml_dist_coeff = dcoef,
                                              yaml_reprojection_error = ret \<rparr> \<rparr>)))"
    unfolding calibrate_def Let_def s_def using assms by simp
  have a: "(\<exists>n. calib_ending (calibrate cv dir_exists images) = Exit 1 (InsufficientSamples n))
        \<longleftrightarrow> length (filter (sample_ok cv) images) < 3"
    unfolding c n [symmetric]
    by (auto simp: stopped_def split: option.splits sum.splits)
  have b: "length (filter (sample_ok cv) images) = 2 \<longrightarrow>
        calibrate cv dir_exists images = stopped (Exit 1 (InsufficientSamples 2))"
    unfolding c using n by simp
  have d: "length (filter (sample_ok cv) images) = 3 \<and>
      (\<forall>size. \<exists>r. calibrateCamera cv (objpoints s) (imgpoints s) size = Inr r) \<longrightarrow>
        calib_ending (calibrate cv dir_exists images) = Done \<and>
        saved_file (calibrate cv dir_exists images) \<noteq> None"
  proof
    assume h: "length (filter (sample_ok cv) images) = 3 \<and>
      (\<forall>size. \<exists>r. calibrateCamera cv (objpoints s) (imgpoints s) size = Inr r)"
    then obtain g where g: "gray s = Some g"
      using collected_gray [of cv images] by (auto simp: s_def)
    from h obtain r where r: "calibrateCamera cv (objpoints s) (imgpoints s) (prod.swap (shape cv g)) = Inr r"
      by blast
    obtain ret mtx dcoef where "r = (ret, mtx, dcoef)" by (cases r)
    with h g r n show "calib_ending (calibrate cv dir_exists images) = Done \<and>
        saved_file (calibrate cv dir_exists images) \<noteq> None"
      unfolding c by simp
  qed
  from a b d show ?thesis unfolding s_def by blast
qed

lemma sample_ok_board:
  "sample_ok sample_board f = (f \<noteq> ''unreadable.jpg'' \<and> f \<noteq> ''blank.jpg'')"
  by (simp add: sample_ok_def sample_board_def)

theorem insufficient_samples_iff_witness:
  "calibrate sample_board True [''a.jpg'', ''blank.jpg'', ''b.jpg'', ''unreadable.jpg'']
     = stopped (Exit 1 (InsufficientSamples 2)) \<and>
   calib_ending (calibrate sample_board True [''a.jpg'', ''blank.jpg'', ''b.jpg'', ''c.jpg'']) = Done \<and>
   saved_file (calibrate sample_board True [''a.jpg'', ''blank.jpg'', ''b.jpg'', ''c.jpg'']) \<noteq> None"
proof -
  have a: "calibrate sample_board True [''a.jpg'', ''blank.jpg'', ''b.jpg'', ''unreadable.jpg'']
     = stopped (Exit 1 (InsufficientSamples 2))"
    using insufficient_samples_iff [of True "[''a.jpg'', ''blank.jpg'', ''b.jpg'', ''unreadable.jpg'']" sample_board]
    by (simp add: sample_ok_board)
  have s: "\<And>obj img size. calibrateCamera sample_board obj img size
       = Inr (5 / 2, Mat3 800 0 320  0 800 240  0 0 1, Dist5 0 0 0 0 0)"
    by (simp add: sample_board_def)
  have b: "calib_ending (calibrate sample_board True [''a.jpg'', ''blank.jpg'', ''b.jpg'', ''c.jpg'']) = Done \<and>
   saved_file (calibrate sample_board True [''a.jpg'', ''blank.jpg'', ''b.jpg'', ''c.jpg'']) \<noteq> None"
  proof -
    have h: "length (filter (sample_ok sample_board) [''a.jpg'', ''blank.jpg'', ''b.jpg'', ''c.jpg'']) = 3 \<and>
      (\<forall>size. \<exists>r. calibrateCamera sample_board
          (objpoints (image_loop sample_board [''a.jpg'', ''blank.jpg'', ''b.jpg'', ''c.jpg''] collect_init))
          (imgpoints (image_loop sample_board [''a.jpg'', ''blank.jpg'', ''b.jpg'', ''c.jpg''] collect_init)) size = Inr r)"
      unfolding s by (intro conjI allI exI [of _ "(5 / 2, Mat3 800 0 320  0 800 240  0 0 1, Dist5 0 0 0 0 0)"])
        (simp_all add: sample_ok_board)
    have t: "True" and i: "[''a.jpg'', ''blank.jpg'', ''b.jpg'', ''c.jpg''] \<noteq> []" by simp_all
    from insufficient_samples_iff [OF t i, of sample_board] h show ?thesis by blast
  qed
  from a b show ?thesis by simp
qed


subsection \<open>Quality\<close>

text \<open>
  C5. The quality reported for the RMS reprojection error \<open>e\<close> is excellent when
  \<open>e < 0.5\<close>, good when \<open>0.5 \<le> e < 1.0\<close>, acceptable when \<open>1.0 \<le> e < 2.0\<close> and poor
  when \<open>e \<ge> 2.0\<close>. It is advisory: whatever the quality, also when it is poor, the result
  of the solve is written to the output file.
\<close>

theorem quality_classification_advisory:
  "(calibration_quality e = Excellent \<longleftrightarrow> e < 5 / 10) \<and>
   (calibration_quality e = Good \<longleftrightarrow> 5 / 10 \<le> e \<and> e < 1) \<and>
   (calibration_quality e = Acceptable \<longleftrightarrow> 1 \<le> e \<and> e < 2) \<and>
   (calibration_quality e = Poor \<longleftrightarrow> 2 \<le> e) \<and>
   (let s = image_loop cv images collect_init in
      dir_exists \<and> images \<noteq> [] \<and> 3 \<le> successful s \<and> gray s = Some g \<and>
      calibrateCamera cv (objpoints s) (imgpoints s) (prod.swap (shape cv g)) = Inr (ret, mtx, dcoef)
      \<longrightarrow> calibrate cv dir_exists images =
            \<lparr> calib_ending = Done,
              quality_report = Some (calibration_quality ret),
              saved_file = Some \<lparr> yaml_camera_matrix = mtx, yaml_dist_coeff = dcoef,
                                  yaml_reprojection_error = ret \<rparr> \<rparr>)"
proof -
  have q: "(calibration_quality e = Excellent \<longleftrightarrow> e < 5 / 10) \<and>
   (calibration_quality e = Good \<longleftrightarrow> 5 / 10 \<le> e \<and> e < 1) \<and>
   (calibration_quality e = Acceptable \<longleftrightarrow> 1 \<le> e \<and> e < 2) \<and>
   (calibration_quality e = Poor \<longleftrightarrow> 2 \<le> e)"
    by (simp add: calibration_quality_def)
  have r: "(let s = image_loop cv images collect_init in
      dir_exists \<and> images \<noteq> [] \<and> 3 \<le> successful s \<and> gray s = Some g \<and>
      calibrateCamera cv (objpoints s) (imgpoints s) (prod.swap (shape cv g)) = Inr (ret, mtx, dcoef)
      \<longrightarrow> calibrate cv dir_exists images =
            \<lparr> calib_ending = Done,
              quality_report = Some (calibration_quality ret),
              saved_file = Some \<lparr> yaml_camera_matrix = mtx, yaml_dist_coeff = dcoef,
                                  yaml_reprojection_error = ret \<rparr> \<rparr>)"
    by (simp add: calibrate_def Let_def)
  from q r show ?thesis by blast
qed

lemma image_loop_board3:
  "image_loop sample_board [''a.jpg'', ''b.jpg'', ''c.jpg''] collect_init
     = \<lparr> objpoints = [objp, objp, objp], imgpoints = [[(1, 1)], [(1, 1)], [(1, 1)]],
         successful = 3, failed = 0, gray = Some ''c.jpg'' \<rparr>"
  by (simp add: sample_board_def collect_init_def cornerSubPix_def subpix_criteria_def
      change_def eval_nat_numeral)

theorem quality_classification_advisory_witness:
  "calibration_quality (5 / 2) = Poor \<and>
   calibrate sample_board True [''a.jpg'', ''b.jpg'', ''c.jpg''] =
     \<lparr> calib_ending = Done,
       quality_report = Some Poor,
       saved_file = Some \<lparr> yaml_camera_matrix = Mat3 800 0 320  0 800 240  0 0 1,
                           yaml_dist_coeff = Dist5 0 0 0 0 0,
                           yaml_reprojection_error = 5 / 2 \<rparr> \<rparr>"
proof -
  have p: "calibration_quality (5 / 2) = Poor"
    using quality_classification_advisory
            [of "5 / 2", THEN conjunct2, THEN conjunct2, THEN conjunct2, THEN conjunct1]
    by simp
  have c: "calibrateCamera sample_board [objp, objp, objp] [[(1, 1)], [(1, 1)], [(1, 1)]]
             (prod.swap (shape sample_board ''c.jpg''))
           = Inr (5 / 2, Mat3 800 0 320  0 800 240  0 0 1, Dist5 0 0 0 0 0)"
    by (simp add: sample_board_def)
  from quality_classification_advisory
         [of 0 sample_board "[''a.jpg'', ''b.jpg'', ''c.jpg'']" True "''c.jpg''"
             "5 / 2" "Mat3 800 0 320  0 800 240  0 0 1" "Dist5 0 0 0 0 0",
           THEN conjunct2, THEN conjunct2, THEN conjunct2, THEN conjunct2,
           unfolded Let_def image_loop_board3]
  have "calibrate sample_board True [''a.jpg'', ''b.jpg'', ''c.jpg''] =
     \<lparr> calib_ending = Done,
       quality_report = Some (calibration_quality (5 / 2)),
       saved_file = Some \<lparr> yaml_camera_matrix = Mat3 800 0 320  0 800 240  0 0 1,
                           yaml_dist_coeff = Dist5 0 0 0 0 0,
                           yaml_reprojection_error = 5 / 2 \<rparr> \<rparr>"
    by (simp add: c)
  with p show ?thesis by simp
qed

subsection \<open>Corner refinement\<close>

lemma refine_corner_spec:
  "refine_corner step k eps c = (q, n) \<Longrightarrow>
     n \<le> k \<and> q = (step ^^ n) c \<and> (0 < k \<longrightarrow> 0 < n) \<and>
     (\<forall>j. Suc j < n \<longrightarrow> \<not> change ((step ^^ j) c) ((step ^^ Suc j) c) < eps) \<and>
     (n < k \<longrightarrow> change ((step ^^ (n - 1)) c) ((step ^^ n) c) < eps)"
proof (induction k arbitrary: c q n)
  case 0
  then show ?case by simp
next
  case (Suc k)
  show ?case
  proof (cases "change c (step c) < eps")
    case True
    with Suc.prems have "q = step c" "n = 1" by (simp_all add: Let_def)
    with True show ?thesis by simp
  next
    case False
    obtain q' n' where r: "refine_corner step k eps (step c) = (q', n')"
      by (cases "refine_corner step k eps (step c)")
    with Suc.prems False have qn: "q = q'" "n = Suc n'" by (simp_all add: Let_def)
    note ih = Suc.IH [OF r]
    have sw: "\<And>i. (step ^^ i) (step c) = (step ^^ Suc i) c"
      by (simp add: funpow_swap1)
    have a: "n \<le> Suc k" using ih qn by simp
    have b: "q = (step ^^ n) c" using ih qn sw by simp
    have d: "\<forall>j. Suc j < n \<longrightarrow> \<not> change ((step ^^ j) c) ((step ^^ Suc j) c) < eps"
    proof (intro allI impI)
      fix j assume j: "Suc j < n"
      show "\<not> change ((step ^^ j) c) ((step ^^ Suc j) c) < eps"
      proof (cases j)
        case 0
        with False show ?thesis by simp
      next
        case (Suc i)
        with j qn have "Suc i < n'" by simp
        with ih have "\<not> change ((step ^^ i) (step c)) ((step ^^ Suc i) (step c)) < eps" by blast
        then show ?thesis unfolding sw Suc .
      qed
    qed
    have e: "n < Suc k \<longrightarrow> change ((step ^^ (n - 1)) c) ((step ^^ n) c) < eps"
    proof
      assume "n < Suc k"
      with qn have lt: "n' < k" by simp
      with ih have p: "0 < n'" and c: "change ((step ^^ (n' - 1)) (step c)) ((step ^^ n') (step c)) < eps"
        by auto
      from p obtain i where i: "n' = Suc i" by (cases n') auto
      from c show "change ((step ^^ (n - 1)) c) ((step ^^ n) c) < eps"
        unfolding sw qn i by simp
    qed
    from a b d e qn show ?thesis by simp
  qed
qed

text \<open>
  C6. With the criteria the script passes, the refinement of a corner makes at least one
  and at most 30 iterations; it stops at the first iteration whose positional change is
  below 0.001 pixels, and every earlier iteration changed the position by at least
  0.001. The refinement is a total function, so it ends for every corner of every image
  in which the pattern is found.
\<close>

theorem corner_refinement_bounded:
  "(case refine_corner step (max_count subpix_criteria) (epsilon subpix_criteria) c of
      (q, n) \<Rightarrow>
        0 < n \<and> n \<le> 30 \<and> q = (step ^^ n) c \<and>
        (\<forall>j. Suc j < n \<longrightarrow> 1 / 1000 \<le> change ((step ^^ j) c) ((step ^^ Suc j) c)) \<and>
        (n < 30 \<longrightarrow> change ((step ^^ (n - 1)) c) ((step ^^ n) c) < 1 / 1000)) \<and>
   cornerSubPix stp g corners w z subpix_criteria =
     map (\<lambda>c. fst (refine_corner (stp g w z) 30 (1 / 1000) c)) corners"
proof -
  obtain q n where r: "refine_corner step 30 (1 / 1000) c = (q, n)"
    by (cases "refine_corner step 30 (1 / 1000) c")
  from refine_corner_spec [OF r]
  have "0 < n \<and> n \<le> 30 \<and> q = (step ^^ n) c \<and>
        (\<forall>j. Suc j < n \<longrightarrow> 1 / 1000 \<le> change ((step ^^ j) c) ((step ^^ Suc j) c)) \<and>
        (n < 30 \<longrightarrow> change ((step ^^ (n - 1)) c) ((step ^^ n) c) < 1 / 1000)"
    by (simp add: not_less)
  with r show ?thesis by (simp add: subpix_criteria_def cornerSubPix_def)
qed

lemma refine_corner_fixed: "refine_corner (\<lambda>c. c) 30 (1 / 1000) (4, 2) = ((4, 2), 1)"
  by (simp add: eval_nat_numeral change_def)

lemma refine_corner_drift:
  "refine_corner (\<lambda>c. (fst c + 1, snd c)) 30 (1 / 1000) (0, 0) = ((30, 0), 30)"
  by (simp add: eval_nat_numeral change_def)

theorem corner_refinement_bounded_witness:
  "refine_corner (\<lambda>c. c) (max_count subpix_criteria) (epsilon subpix_criteria) (4, 2) = ((4, 2), 1) \<and>
   change (4, 2) (4, 2) < 1 / 1000 \<and>
   refine_corner (\<lambda>c. (fst c + 1, snd c)) (max_count subpix_criteria) (epsilon subpix_criteria) (0, 0)
     = ((30, 0), 30) \<and>
   1 / 1000 \<le> change (0, 0) (1, 0)"
proof -
  have m: "max_count subpix_criteria = 30" "epsilon subpix_criteria = 1 / 1000"
    by (simp_all add: subpix_criteria_def)
  have a: "change (4, 2) (4, 2) < 1 / 1000"
    using corner_refinement_bounded [of "\<lambda>c. c" "(4, 2)", THEN conjunct1]
    by (simp add: m refine_corner_fixed)
  have b: "1 / 1000 \<le> change (0, 0) (1, 0)"
  proof -
    have "\<forall>j. Suc j < 30 \<longrightarrow>
            1 / 1000 \<le> change (((\<lambda>c. (fst c + 1, snd c)) ^^ j) (0, 0))
                               (((\<lambda>c. (fst c + 1, snd c)) ^^ Suc j) (0, 0))"
      using corner_refinement_bounded [of "\<lambda>c. (fst c + 1, snd c)" "(0, 0)", THEN conjunct1]
      by (simp add: m refine_corner_drift)
    from this [rule_format, of 0] show ?thesis by simp
  qed
  from a b show ?thesis by (simp add: m refine_corner_fixed refine_corner_drift)
qed



section \<open>Properties of capture.py\<close>


lemma capture_iteration_result:
  "capture_iteration cv pixels key s =
     (let (found, corners) = findChessboardCorners cv (cvtColor cv pixels) CHESSBOARD_SIZE;
          display_img = (if found
                         then putText cv (drawChessboardCorners cv pixels CHESSBOARD_SIZE corners found)
                                ''Press SPACE to save''
                         else pixels);
          h3 = \<lparr> cells = (cells (heap s))(next_addr (heap s) \<mapsto> pixels,
                                          Suc (next_addr (heap s)) \<mapsto> display_img),
                 next_addr = Suc (Suc (next_addr (heap s))) \<rparr>
      in Some (s\<lparr> heap := h3,
                  shown := shown s @ [display_img],
                  files := files s @ (if key = 32 \<and> found then [(filename (count s), pixels)] else []),
                  count := count s + (if key = 32 \<and> found then 1 else 0) \<rparr>,
               if key = 32 \<and> found then count s + 1 \<ge> NUM_IMAGES else key = 27))"
  by (auto simp: capture_iteration_def new_array_def array_copy_def draw_into_def Let_def
      split: prod.splits)

lemma capture_iteration_files:
  "\<exists>s' stop. capture_iteration cv pixels key s = Some (s', stop) \<and>
      snd ` set (files s') \<subseteq> insert pixels (snd ` set (files s))"
  by (auto simp: capture_iteration_result Let_def split: prod.splits)

lemma subset_chain:
  "A \<subseteq> insert p B \<Longrightarrow> C \<subseteq> A \<union> D \<Longrightarrow> C \<subseteq> B \<union> insert p D"
  by blast

lemma capture_loop_files:
  "\<exists>s'. capture_loop cv inputs s = Some s' \<and>
      snd ` set (files s') \<subseteq> snd ` set (files s) \<union> fst ` set inputs"
proof (induction inputs arbitrary: s)
  case Nil
  then show ?case by simp
next
  case (Cons a inputs)
  obtain pixels key where a: "a = (pixels, key)" by (cases a)
  obtain s1 stop where it: "capture_iteration cv pixels key s = Some (s1, stop)"
    and f1: "snd ` set (files s1) \<subseteq> insert pixels (snd ` set (files s))"
    using capture_iteration_files [of cv pixels key s] by blast
  show ?case
  proof (cases stop)
    case True
    with a it f1 show ?thesis by auto
  next
    case False
    obtain s' where l: "capture_loop cv inputs s1 = Some s'"
      and f': "snd ` set (files s') \<subseteq> snd ` set (files s1) \<union> fst ` set inputs"
      using Cons.IH [of s1] by blast
    have e: "fst ` set (a # inputs) = insert pixels (fst ` set inputs)"
      using a by simp
    have "snd ` set (files s') \<subseteq> snd ` set (files s) \<union> fst ` set (a # inputs)"
      unfolding e by (rule subset_chain [OF f1 f'])
    with a it False l show ?thesis by simp
  qed
qed

lemma capture_files:
  "\<exists>e s'. capture cv opened inputs = Some (e, s') \<and> snd ` set (files s') \<subseteq> fst ` set inputs"
proof (cases opened)
  case False
  then show ?thesis by (simp add: capture_def capture_init_def)
next
  case True
  obtain s' where l: "capture_loop cv inputs capture_init = Some s'"
    and f: "snd ` set (files s') \<subseteq> snd ` set (files (capture_init :: 'a capture_state)) \<union> fst ` set inputs"
    using capture_loop_files [of cv inputs capture_init] by blast
  from f have "snd ` set (files s') \<subseteq> fst ` set inputs" by (simp add: capture_init_def)
  with True l show ?thesis by (simp add: capture_def)
qed

text \<open>
  C10. When a calibration image is captured (SPACE, with the pattern found), the array
  written to disk is the camera frame as it was read, not the display copy: the file
  holds the frame without the drawn corners and the text, while the image shown is the
  copy with both drawn into it. Every file a run writes holds one of the frames read.
\<close>

theorem saved_image_is_camera_frame:
  "(let (found, corners) = findChessboardCorners cv (cvtColor cv pixels) CHESSBOARD_SIZE
    in \<exists>s' stop. capture_iteration cv pixels key s = Some (s', stop) \<and>
         files s' = files s @ (if key = 32 \<and> found then [(filename (count s), pixels)] else []) \<and>
         shown s' = shown s @
           [if found
            then putText cv (drawChessboardCorners cv pixels CHESSBOARD_SIZE corners found)
                   ''Press SPACE to save''
            else pixels]) \<and>
   (\<exists>e s'. capture cv opened inputs = Some (e, s') \<and> snd ` set (files s') \<subseteq> fst ` set inputs)"
proof -
  have a: "(let (found, corners) = findChessboardCorners cv (cvtColor cv pixels) CHESSBOARD_SIZE
    in \<exists>s' stop. capture_iteration cv pixels key s = Some (s', stop) \<and>
         files s' = files s @ (if key = 32 \<and> found then [(filename (count s), pixels)] else []) \<and>
         shown s' = shown s @
           [if found
            then putText cv (drawChessboardCorners cv pixels CHESSBOARD_SIZE corners found)
                   ''Press SPACE to save''
            else pixels])"
    by (simp add: capture_iteration_result Let_def split: prod.splits)
  from a capture_files [of cv opened inputs] show ?thesis by blast
qed

lemma filename_0: "filename 0 = ''calib_images/img_00.jpg''"
  by code_simp

text \<open>A run of four frames: only the third is saved, and without the overlays.\<close>

lemma capture_sample_run:
  "map_option (\<lambda>(e, s). (e, count s, files s, shown s))
     (capture sample_board True
        [(''blank.jpg'', 32), (''frame1'', - 1), (''frame2'', 32), (''frame3'', 27)])
   = Some (Done, 1, [(''calib_images/img_00.jpg'', ''frame2'')],
           [''blank.jpg'', ''frame1+corners+text'', ''frame2+corners+text'', ''frame3+corners+text''])"
  by (simp add: capture_def capture_init_def empty_store_def capture_iteration_result
      sample_board_def NUM_IMAGES_def filename_0 Let_def)

theorem saved_image_is_camera_frame_witness:
  "(\<exists>s' stop. capture_iteration sample_board ''frame2'' 32 capture_init = Some (s', stop) \<and>
       files s' = [(''calib_images/img_00.jpg'', ''frame2'')] \<and>
       shown s' = [''frame2+corners+text'']) \<and>
   (\<exists>e s'. capture sample_board True [(''frame1'', - 1), (''frame2'', 32)] = Some (e, s') \<and>
       snd ` set (files s') \<subseteq> {''frame1'', ''frame2''})"
proof -
  have f: "findChessboardCorners sample_board (cvtColor sample_board ''frame2'') CHESSBOARD_SIZE
             = (True, [(1, 1)])"
    by (simp add: sample_board_def)
  have d: "putText sample_board
             (drawChessboardCorners sample_board ''frame2'' CHESSBOARD_SIZE [(1, 1)] True)
             ''Press SPACE to save'' = ''frame2+corners+text''"
    by (simp add: sample_board_def)
  have i: "files (capture_init :: string capture_state) = []"
    "shown (capture_init :: string capture_state) = []"
    "count (capture_init :: string capture_state) = 0"
    by (simp_all add: capture_init_def)
  from saved_image_is_camera_frame
         [of sample_board "''frame2''" 32 capture_init True "[(''frame1'', - 1), (''frame2'', 32)]"]
  show ?thesis
    unfolding f by (simp add: d i filename_0)
qed


end
